theory Spec2Isabelle
  imports Complex_Main "HOL-Library.Word"
begin

section \<open>Common data\<close>

text \<open>
  Go's fixed-width integers are words: \<open>uint64\<close> is read with \<open>unat\<close>, \<open>int64\<close> with
  \<open>sint\<close>; \<open>+\<close>, \<open>-\<close> and \<open>*\<close> wrap around as in Go. A \<open>time.Duration\<close> is an
  \<open>int64\<close> count of nanoseconds.
\<close>

type_synonym uint64 = "64 word"
type_synonym int64 = "64 word"
type_synonym duration = "64 word"

text \<open>
  Go \<open>error\<close> values, by where they arise. In \<open>rpcCall\<close>: an error of
  \<open>http.NewRequestWithContext\<close>, of \<open>client.Do\<close>, of \<open>dec.Decode\<close>, and
  \<open>errors.New(decoded.Error.Message)\<close>; \<open>RPCExhausted method n lastErr\<close> is
  \<open>fmt.Errorf("rpc %s failed after %d attempts: %v", method, maxRetries, lastErr)\<close>, with
  \<open>None\<close> for a nil \<open>lastErr\<close>. In \<open>hexToUint64\<close>: \<open>empty hex string\<close>, \<open>invalid hex\<close>
  and \<open>out of uint64 range\<close>, the last two with the string they quote. \<open>EmptyBlock h\<close> is
  \<open>fmt.Errorf("empty block/timestamp for height %d", height)\<close>. \<open>FetchError\<close> is any
  error of an HTTP GET and its decoding (\<open>getJSON\<close>, \<open>http.Get\<close>, \<open>json.Unmarshal\<close>,
  \<open>time.Parse\<close>); \<open>EmptyBlockTime\<close> is \<open>errors.New("empty block time")\<close>;
  \<open>Wrapped msg err\<close> is an error wrapped with a message, as by
  \<open>fmt.Errorf("get latest: %w", err)\<close>; and \<open>LatestTimestampUnavailable n\<close> stands for
  the message \<open>failed to fetch latest block n timestamp\<close> before \<open>os.Exit(1)\<close>.
\<close>

datatype error =
    RequestError string
  | TransportError string
  | DecodeError string
  | RPCErrorField string
  | RPCExhausted string nat "error option"
  | EmptyHexString
  | InvalidHex string
  | OutOfUint64Range string
  | EmptyBlock uint64
  | FetchError string
  | EmptyBlockTime
  | Wrapped string error
  | LatestTimestampUnavailable uint64

section \<open>The JSON-RPC helper with retry\<close>

definition maxRetries :: nat where
  "maxRetries = 3"

definition retryBackoff :: duration where
  "retryBackoff = 600 * 1000000"

text \<open>
  What one pass through the body of the retry loop meets after the request was built:
  \<open>client.Do\<close> fails, \<open>dec.Decode\<close> fails, the decoded envelope has a non-nil \<open>Error\<close>
  (with its message), or the envelope carries a result.
\<close>

datatype 'r attempt_outcome =
    TransportFails string
  | DecodeFails string
  | ErrorField string
  | Result 'r

text \<open>
  What a call of \<open>rpcCall\<close> leaves behind: the returned error or the value stored in
  \<open>*out\<close>, the number of \<open>client.Do\<close> calls made, and the arguments of the
  \<open>time.Sleep\<close> calls in order.
\<close>

record 'r rpc_run =
  ret :: "error + 'r"
  attempts :: nat
  sleeps :: "duration list"

text \<open>
  The loop \<open>for attempt := 0; attempt < maxRetries; attempt++\<close> of \<open>rpcCall\<close>.
  \<open>newRequest\<close> is the error of \<open>http.NewRequestWithContext\<close> (it depends on the URL and
  the context only, \<open>None\<close> when the request is built); \<open>endpoint k\<close> is what the
  \<open>k\<close>-th request of this call meets. Every failing pass stores the failure in
  \<open>lastErr\<close>, sleeps \<open>retryBackoff * time.Duration(attempt+1)\<close> and continues.
\<close>

function rpcCall_loop ::
  "error option \<Rightarrow> (nat \<Rightarrow> 'r attempt_outcome) \<Rightarrow> string \<Rightarrow> nat \<Rightarrow> error option \<Rightarrow> duration list
     \<Rightarrow> 'r rpc_run" where
  "rpcCall_loop newRequest endpoint method attempt lastErr slept =
     (if attempt < maxRetries then
        (case newRequest of
           Some err \<Rightarrow> \<lparr>ret = Inl err, attempts = attempt, sleeps = slept\<rparr>
         | None \<Rightarrow>
            (case endpoint attempt of
               TransportFails e \<Rightarrow>
                 rpcCall_loop newRequest endpoint method (attempt + 1) (Some (TransportError e))
                   (slept @ [retryBackoff * of_nat (attempt + 1)])
             | DecodeFails e \<Rightarrow>
                 rpcCall_loop newRequest endpoint method (attempt + 1) (Some (DecodeError e))
                   (slept @ [retryBackoff * of_nat (attempt + 1)])
             | ErrorField m \<Rightarrow>
                 rpcCall_loop newRequest endpoint method (attempt + 1) (Some (RPCErrorField m))
                   (slept @ [retryBackoff * of_nat (attempt + 1)])
             | Result r \<Rightarrow> \<lparr>ret = Inr r, attempts = attempt + 1, sleeps = slept\<rparr>))
      else \<lparr>ret = Inl (RPCExhausted method maxRetries lastErr), attempts = attempt, sleeps = slept\<rparr>)"
  by pat_completeness auto
termination
  by (relation "measure (\<lambda>(_, _, _, attempt, _, _). maxRetries - attempt)") auto

definition rpcCall ::
  "error option \<Rightarrow> (nat \<Rightarrow> 'r attempt_outcome) \<Rightarrow> string \<Rightarrow> 'r rpc_run" where
  "rpcCall newRequest endpoint method = rpcCall_loop newRequest endpoint method 0 None []"

text \<open>The failures the loop retries on, and the error each leaves in \<open>lastErr\<close>.\<close>

fun is_failure :: "'r attempt_outcome \<Rightarrow> bool" where
  "is_failure (Result r) = False"
| "is_failure _ = True"

fun failure_error :: "'r attempt_outcome \<Rightarrow> error option" where
  "failure_error (TransportFails e) = Some (TransportError e)"
| "failure_error (DecodeFails e) = Some (DecodeError e)"
| "failure_error (ErrorField m) = Some (RPCErrorField m)"
| "failure_error (Result r) = None"

definition total_backoff :: "duration list \<Rightarrow> int" where
  "total_backoff ds = sum_list (map sint ds)"

text \<open>Two endpoints to run the loop on: one that is always down, and one that answers the
  third request.\<close>

definition always_down :: "nat \<Rightarrow> string attempt_outcome" where
  "always_down k = TransportFails ''connection refused''"

definition third_time_lucky :: "nat \<Rightarrow> string attempt_outcome" where
  "third_time_lucky k = (if k < 2 then TransportFails ''connection refused'' else Result ''0x10'')"

section \<open>Hexadecimal quantities\<close>

subsection \<open>The library calls\<close>

text \<open>
  \<open>strings.HasPrefix(s, prefix)\<close> is \<open>len(s) >= len(prefix) && s[:len(prefix)] == prefix\<close>.
\<close>

definition HasPrefix :: "string \<Rightarrow> string \<Rightarrow> bool" where
  "HasPrefix s pre = (length pre \<le> length s \<and> take (length pre) s = pre)"

text \<open>
  \<open>(*big.Int).SetString(s, base)\<close> of Go's \<open>math/big\<close>, for a base between 2 and 36: an
  optional sign \<open>+\<close> or \<open>-\<close>, then digits; the digit scanner gives every byte a value
  (\<open>0\<close> to \<open>9\<close>, then \<open>a\<close> to \<open>z\<close> and \<open>A\<close> to \<open>Z\<close> from 10 on, anything else
  \<open>MaxBase + 1 = 63\<close>) and stops at the first byte whose value is not below the base; it
  fails when it has read no digit, and \<open>SetString\<close> fails unless the whole string was
  consumed. A \<open>big.Int\<close> is an \<open>int\<close>; zero has no sign, so \<open>-0\<close> is \<open>0\<close>.
\<close>

definition digitVal :: "char \<Rightarrow> nat" where
  "digitVal ch =
     (let c = (of_char ch :: nat) in
      if 48 \<le> c \<and> c \<le> 57 then c - 48
      else if 97 \<le> c \<and> c \<le> 122 then c - 97 + 10
      else if 65 \<le> c \<and> c \<le> 90 then c - 65 + 10
      else 63)"

text \<open>\<open>nat_scan base s z count\<close>: the digits read so far have value \<open>z\<close> and number
  \<open>count\<close>; the result is the value, the number of digits and the unread rest.\<close>

fun nat_scan :: "nat \<Rightarrow> string \<Rightarrow> nat \<Rightarrow> nat \<Rightarrow> nat \<times> nat \<times> string" where
  "nat_scan base [] z count = (z, count, [])"
| "nat_scan base (ch # r) z count =
     (if base \<le> digitVal ch then (z, count, ch # r)
      else nat_scan base r (z * base + digitVal ch) (count + 1))"

definition SetString :: "string \<Rightarrow> nat \<Rightarrow> int option" where
  "SetString s base =
     (case s of
        [] \<Rightarrow> None
      | c # r \<Rightarrow>
          (let neg = (c = CHR ''-'');
               digits = (if c = CHR ''-'' \<or> c = CHR ''+'' then r else s)
           in case nat_scan base digits 0 0 of
                (z, count, rest) \<Rightarrow>
                  if count = 0 then None
                  else if rest \<noteq> [] then None
                  else Some (if neg then - int z else int z)))"

text \<open>\<open>(*big.Int).IsUint64\<close>: the value is representable as a \<open>uint64\<close>.\<close>

definition IsUint64 :: "int \<Rightarrow> bool" where
  "IsUint64 x = (0 \<le> x \<and> x < 2 ^ 64)"

text \<open>
  \<open>fmt.Sprintf("0x%x", v)\<close> for a \<open>uint64\<close>, as \<open>getBlockTimestamp\<close> renders a height:
  lower-case digits, most significant first, no leading zero, \<open>0\<close> for zero.
\<close>

definition hexDigit :: "nat \<Rightarrow> char" where
  "hexDigit d = ''0123456789abcdef'' ! d"

function hexDigits :: "nat \<Rightarrow> string" where
  "hexDigits n = (if n < 16 then [hexDigit n] else hexDigits (n div 16) @ [hexDigit (n mod 16)])"
  by pat_completeness auto
termination
  by (relation "measure (\<lambda>n. n)") auto

definition toHex :: "uint64 \<Rightarrow> string" where
  "toHex v = ''0x'' @ hexDigits (unat v)"

subsection \<open>hexToUint64\<close>

definition hexToUint64 :: "string \<Rightarrow> error + uint64" where
  "hexToUint64 h0 =
     (let h = (if HasPrefix h0 ''0x'' \<or> HasPrefix h0 ''0X'' then drop 2 h0 else h0)
      in if h = [] then Inl EmptyHexString
         else case SetString h 16 of
                None \<Rightarrow> Inl (InvalidHex h)
              | Some bi \<Rightarrow>
                  if bi < 0 \<or> \<not> IsUint64 bi then Inl (OutOfUint64Range h)
                  else Inr (word_of_int bi))"

subsection \<open>What a hexadecimal numeral denotes\<close>

text \<open>
  Independently of the scanner: the hexadecimal digits, and the number a string of them
  denotes, most significant digit first.
\<close>

definition isHexDigit :: "char \<Rightarrow> bool" where
  "isHexDigit c = (c \<in> set ''0123456789abcdefABCDEF'')"

definition hexDigitValue :: "char \<Rightarrow> nat" where
  "hexDigitValue c =
     (if c = CHR ''0'' then 0 else if c = CHR ''1'' then 1 else if c = CHR ''2'' then 2
      else if c = CHR ''3'' then 3 else if c = CHR ''4'' then 4 else if c = CHR ''5'' then 5
      else if c = CHR ''6'' then 6 else if c = CHR ''7'' then 7 else if c = CHR ''8'' then 8
      else if c = CHR ''9'' then 9
      else if c = CHR ''a'' \<or> c = CHR ''A'' then 10
      else if c = CHR ''b'' \<or> c = CHR ''B'' then 11
      else if c = CHR ''c'' \<or> c = CHR ''C'' then 12
      else if c = CHR ''d'' \<or> c = CHR ''D'' then 13
      else if c = CHR ''e'' \<or> c = CHR ''E'' then 14
      else 15)"

fun hex_value :: "string \<Rightarrow> nat" where
  "hex_value [] = 0"
| "hex_value (c # cs) = hexDigitValue c * 16 ^ length cs + hex_value cs"

text \<open>A hexadecimal numeral: one digit or more, and nothing else.\<close>

definition hex_numeral :: "string \<Rightarrow> bool" where
  "hex_numeral ds = (ds \<noteq> [] \<and> list_all isHexDigit ds)"

text \<open>The input of \<open>hexToUint64\<close> without its optional \<open>0x\<close> or \<open>0X\<close>, the sign that
  \<open>SetString\<close> accepts in front of the digits, and the string without that sign.\<close>

definition strip0x :: "string \<Rightarrow> string" where
  "strip0x h = (if take 2 h = ''0x'' \<or> take 2 h = ''0X'' then drop 2 h else h)"

definition has_minus :: "string \<Rightarrow> bool" where
  "has_minus h = (h \<noteq> [] \<and> hd h = CHR ''-'')"

definition unsigned_part :: "string \<Rightarrow> string" where
  "unsigned_part h = (if h \<noteq> [] \<and> (hd h = CHR ''-'' \<or> hd h = CHR ''+'') then tl h else h)"

section \<open>Lookback targets\<close>

text \<open>
  The \<open>target\<close> struct of the Bor average-block-time program and its method \<open>resolve\<close>.
  \<open>uint64(t.delta)\<close> and \<open>uint64(-t.delta)\<close> keep the bits of the \<open>int64\<close>; \<open>d > n\<close>
  compares unsigned. The second component is the \<open>ok\<close> flag: \<open>False\<close> means the target is
  skipped. The field \<open>value\<close> of the struct is \<open>val\<close> here.
\<close>

record target =
  kind :: string
  delta :: int64
  val :: uint64

definition resolve :: "target \<Rightarrow> uint64 \<Rightarrow> uint64 \<times> bool" where
  "resolve t n =
     (if kind t = ''relative'' then
        (if 0 \<le> sint (delta t) then (n + delta t, True)
         else let d = - delta t
              in if n < d then (0, False) else (n - d, True))
      else if kind t = ''absolute'' then
        (if n < val t then (0, False) else (val t, True))
      else (0, False))"

definition relative :: "int64 \<Rightarrow> target" where
  "relative d = \<lparr>kind = ''relative'', delta = d, val = 0\<rparr>"

text \<open>
  The Heimdall average-block-time program resolves a lookback inline:
  \<open>target := latestHeight - lb\<close>, skipped when \<open>target < earliestHeight\<close> (all \<open>int64\<close>).
  \<open>None\<close> is the skip.
\<close>

definition lookback_target :: "int64 \<Rightarrow> int64 \<Rightarrow> int64 \<Rightarrow> int64 option" where
  "lookback_target latestHeight earliestHeight lb =
     (let target = latestHeight - lb
      in if sint target < sint earliestHeight then None else Some target)"

section \<open>The clamp of the rounding predictor\<close>

text \<open>
  Step 5 of the Bor predictor: \<open>predicted := int64(n) + blocksRounded\<close>, set to 0 when
  negative; the result is what \<open>uint64(predicted)\<close> receives.
\<close>

definition predicted_height :: "uint64 \<Rightarrow> int64 \<Rightarrow> int64" where
  "predicted_height n blocksRounded =
     (let predicted = n + blocksRounded
      in if sint predicted < 0 then 0 else predicted)"

section \<open>Time\<close>

text \<open>
  A \<open>time.Time\<close> is an instant; it is modelled by its number of nanoseconds since the Unix
  epoch, an unbounded integer. Go keeps the whole seconds of an instant as an \<open>int64\<close>
  count from 1 January of year 1; the times these programs parse from text (years 0 to
  9999) are far inside that range. \<open>t.Sub(u)\<close> is the difference as a \<open>Duration\<close>,
  saturated at the least and the greatest \<open>Duration\<close>; \<open>t.Add(d)\<close> adds a duration.
\<close>

type_synonym time = int

definition Second :: duration where
  "Second = 1000000000"

definition Sub :: "time \<Rightarrow> time \<Rightarrow> duration" where
  "Sub t u =
     (if t - u < - (2 ^ 63) then word_of_int (- (2 ^ 63))
      else if 2 ^ 63 - 1 < t - u then word_of_int (2 ^ 63 - 1)
      else word_of_int (t - u))"

definition Add :: "time \<Rightarrow> duration \<Rightarrow> time" where
  "Add t d = t + sint d"

text \<open>
  \<open>time.Unix(sec, 0)\<close> is \<open>Time{0, sec + unixToInternal, Local}\<close>: the seconds since year 1
  are the \<open>int64\<close> sum of \<open>sec\<close> and the constant \<open>unixToInternal\<close>, the seconds from
  year 1 to 1970, and that sum wraps around. So \<open>time.Unix(sec, 0)\<close> is the instant
  \<open>sec\<close> seconds after the epoch only while \<open>sec + 62135596800\<close> is below \<open>2^63\<close>; for a
  greater \<open>sec\<close> it is an instant about 292 billion years before the epoch.
\<close>

definition unixToInternal :: int64 where
  "unixToInternal = 62135596800"

definition Unix :: "int64 \<Rightarrow> time" where
  "Unix sec = (sint (sec + unixToInternal) - sint unixToInternal) * 1000000000"

section \<open>float64 arithmetic\<close>

text \<open>
  A finite \<open>float64\<close> is the rational number it denotes. An arithmetic operation of Go
  computes the exact result and rounds it to the nearest \<open>float64\<close>, ties to the even
  significand (IEEE 754 binary64: 53 bits of significand, least normal exponent
  \<open>-1022\<close>, below it the subnormal numbers with the spacing \<open>2^-1074\<close>). \<open>round64\<close> is
  that rounding, with the exponent unbounded above; \<open>fl64\<close> gives \<open>None\<close> where the
  rounded magnitude reaches \<open>2^1024\<close>, that is where Go gives an infinity. Throughout,
  \<open>None\<close> for a \<open>float64\<close> means a value outside this fragment (an infinity, a NaN, or a
  result that depends on the sign of a zero); nothing is claimed about it.
\<close>

type_synonym float64 = rat

definition pow2 :: "int \<Rightarrow> rat" where
  "pow2 e = (if 0 \<le> e then 2 ^ nat e else 1 / 2 ^ nat (- e))"

text \<open>The number of binary digits of a natural number.\<close>

fun bit_length :: "nat \<Rightarrow> nat" where
  "bit_length n = (if n = 0 then 0 else Suc (bit_length (n div 2)))"

text \<open>For \<open>q > 0\<close>, the exponent \<open>e\<close> with \<open>2^e \<le> q < 2^(e+1)\<close>.\<close>

definition ilog2 :: "rat \<Rightarrow> int" where
  "ilog2 q =
     (case quotient_of q of (a, b) \<Rightarrow>
        let d = int (bit_length (nat a)) - int (bit_length (nat b))
        in if pow2 d \<le> q then d else d - 1)"

definition round_to_even :: "rat \<Rightarrow> int" where
  "round_to_even x =
     (let f = \<lfloor>x\<rfloor>; r = x - of_int f
      in if r < 1 / 2 then f else if 1 / 2 < r then f + 1 else if even f then f else f + 1)"

text \<open>The spacing of the \<open>float64\<close> numbers around \<open>q \<noteq> 0\<close>.\<close>

definition ulp :: "rat \<Rightarrow> rat" where
  "ulp q = pow2 (max (ilog2 \<bar>q\<bar>) (- 1022) - 52)"

definition round64 :: "rat \<Rightarrow> float64" where
  "round64 q = (if q = 0 then 0 else of_int (round_to_even (q / ulp q)) * ulp q)"

definition fl64 :: "rat \<Rightarrow> float64 option" where
  "fl64 q = (if \<bar>round64 q\<bar> < pow2 1024 then Some (round64 q) else None)"

text \<open>Multiplication and division of a value that may be outside the fragment by a finite
  operand; a division by zero is outside the fragment.\<close>

definition fmul :: "float64 option \<Rightarrow> float64 \<Rightarrow> float64 option" where
  "fmul x b = (case x of None \<Rightarrow> None | Some a \<Rightarrow> fl64 (a * b))"

definition fdiv :: "float64 option \<Rightarrow> float64 \<Rightarrow> float64 option" where
  "fdiv x b = (case x of None \<Rightarrow> None | Some a \<Rightarrow> if b = 0 then None else fl64 (a / b))"

text \<open>
  The conversion \<open>float64(k)\<close> of an \<open>int64\<close> rounds (and cannot overflow). The
  conversion \<open>int64(x)\<close> of a \<open>float64\<close> discards the fraction (truncation towards zero);
  where the truncated value is no \<open>int64\<close> Go leaves the result to the implementation,
  which is \<open>None\<close> here.
\<close>

definition int64_to_float64 :: "int64 \<Rightarrow> float64" where
  "int64_to_float64 k = round64 (of_int (sint k))"

definition toward_zero :: "rat \<Rightarrow> int" where
  "toward_zero x = (if 0 \<le> x then \<lfloor>x\<rfloor> else \<lceil>x\<rceil>)"

definition float64_to_int64 :: "float64 option \<Rightarrow> int64 option" where
  "float64_to_int64 x =
     (case x of
        None \<Rightarrow> None
      | Some a \<Rightarrow>
          if - (2 ^ 63) \<le> toward_zero a \<and> toward_zero a < 2 ^ 63 then Some (word_of_int (toward_zero a))
          else None)"

text \<open>\<open>math.Round\<close>: the nearest integer, halves away from zero; the result is a
  \<open>float64\<close> whenever the argument is one.\<close>

definition math_Round :: "float64 option \<Rightarrow> float64 option" where
  "math_Round x =
     (case x of
        None \<Rightarrow> None
      | Some a \<Rightarrow> Some (of_int (if 0 \<le> a then \<lfloor>a + 1 / 2\<rfloor> else \<lceil>a - 1 / 2\<rceil>)))"

text \<open>
  Go's integer division truncates towards zero and the remainder has the sign of the
  dividend. \<open>Duration.Seconds\<close> is
  \<open>sec := d / Second; nsec := d % Second; return float64(sec) + float64(nsec)/1e9\<close>;
  none of its three operations can overflow.
\<close>

definition quo :: "int \<Rightarrow> int \<Rightarrow> int" where
  "quo a b = sgn a * sgn b * (\<bar>a\<bar> div \<bar>b\<bar>)"

definition rem :: "int \<Rightarrow> int \<Rightarrow> int" where
  "rem a b = a - b * quo a b"

definition Seconds :: "duration \<Rightarrow> float64" where
  "Seconds d =
     (let sec = quo (sint d) (sint Second);
          nsec = rem (sint d) (sint Second)
      in round64 (round64 (of_int sec) + round64 (round64 (of_int nsec) / 1000000000)))"

section \<open>The future-height predictors\<close>

text \<open>
  A run of a program: what it printed, and the error it stopped with (a panic or an exit
  with status 1), if any. A number that a program prints is an \<open>option\<close> where it comes
  from \<open>float64\<close> arithmetic: \<open>None\<close> stands for a value outside the fragment (the line
  is printed, with an infinity, a NaN, or the integer that the implementation makes of
  one or of a value beyond the \<open>int64\<close> range).
\<close>

record 'l run =
  printed :: "'l list"
  failure :: "error option"

subsection \<open>The Heimdall predictor, which takes the floor\<close>

text \<open>
  What the program prints: the current block, then either the message that the target
  time is in the past or the prediction (target time, average block time, time delta,
  blocks to add, predicted height).
\<close>

datatype hf_line =
    CurrentBlock int64 time
  | TargetInPast time
  | FuturePrediction time float64 duration "int64 option" "int64 option"

text \<open>
  The part of \<open>main\<close> after the current block is printed, with the two values the source
  hard-codes (\<open>targetTimeStr\<close>, parsed, and \<open>avgBlockTime\<close>) as arguments.
\<close>

definition hf_predict :: "time \<Rightarrow> float64 \<Rightarrow> int64 \<Rightarrow> time \<Rightarrow> hf_line list" where
  "hf_predict targetTime avgBlockTime latestHeight latestTime =
     (let delta = Sub targetTime latestTime
      in if sint delta < 0 then [TargetInPast targetTime]
         else
           (let blocksToAdd = float64_to_int64 (fdiv (Some (Seconds delta)) avgBlockTime);
                predicted = map_option (\<lambda>b. latestHeight + b) blocksToAdd
            in [FuturePrediction targetTime avgBlockTime delta blocksToAdd predicted]))"

text \<open>The hard-coded arguments: \<open>2025-09-16T14:00:00Z\<close> and the \<open>float64\<close> nearest to
  \<open>1.30\<close>.\<close>

definition targetTime_hardcoded :: time where
  "targetTime_hardcoded = 1758031200 * 1000000000"

definition avgBlockTime_hardcoded :: float64 where
  "avgBlockTime_hardcoded = 5854679515581645 / 4503599627370496"

text \<open>\<open>main\<close>, given the result of \<open>getLatest\<close> (height, time and earliest height, or the
  error the program panics with).\<close>

definition heimdall_hf_main :: "error + (int64 \<times> time \<times> int64) \<Rightarrow> hf_line run" where
  "heimdall_hf_main latest =
     (case latest of
        Inl err \<Rightarrow> \<lparr>printed = [], failure = Some (Wrapped ''get latest'' err)\<rparr>
      | Inr (latestHeight, latestTime, earliest) \<Rightarrow>
          \<lparr>printed = CurrentBlock latestHeight latestTime
                      # hf_predict targetTime_hardcoded avgBlockTime_hardcoded latestHeight latestTime,
           failure = None\<rparr>)"

subsection \<open>The Bor predictor, which rounds\<close>

text \<open>
  The lines of the Bor predictor: current block and its time; target time; average block
  time; the time delta with its sign and its seconds; the estimated block delta (sign,
  \<open>absInt64(blocksRounded)\<close>, exact quotient); and the predicted height, that is
  \<open>uint64(predicted)\<close>.
\<close>

datatype bor_hf_line =
    CurrentBlockLine uint64 time
  | TargetTimeLine time
  | AvgBlockLine float64
  | DeltaTimeLine string duration float64
  | EstimatedBlocksLine string "int64 option" "float64 option"
  | PredictedHeightLine "uint64 option"

definition absInt64 :: "int64 \<Rightarrow> int64" where
  "absInt64 v = (if sint v < 0 then - v else v)"

text \<open>
  \<open>main\<close> with the results of its three fallible steps as arguments: the latest block
  number, the timestamp of a block (\<open>getBlockTimestamp\<close> as a function of the height), and
  the parsed target time. Each error ends the run through \<open>failf\<close>. The average block
  time is the value of the flag \<open>-avg\<close>, taken to be finite. There is no test of the sign
  of \<open>delta\<close> other than the one that chooses the sign to print.
\<close>

definition bor_hf_main ::
  "error + uint64 \<Rightarrow> (uint64 \<Rightarrow> error + uint64) \<Rightarrow> error + time \<Rightarrow> float64
     \<Rightarrow> bor_hf_line run" where
  "bor_hf_main latest blockTimestamp parsedTarget avg =
     (case latest of
        Inl err \<Rightarrow> \<lparr>printed = [], failure = Some (Wrapped ''get latest block number'' err)\<rparr>
      | Inr n \<Rightarrow>
         (case blockTimestamp n of
            Inl err \<Rightarrow>
              \<lparr>printed = [], failure = Some (Wrapped ''get timestamp for current block'' err)\<rparr>
          | Inr curTS \<Rightarrow>
             (case parsedTarget of
                Inl err \<Rightarrow> \<lparr>printed = [], failure = Some (Wrapped ''parse target time'' err)\<rparr>
              | Inr target \<Rightarrow>
                 (let now = Unix curTS;
                      delta = Sub target now;
                      deltaSeconds = Seconds delta;
                      blocksFloat = fdiv (Some deltaSeconds) avg;
                      blocksRounded = float64_to_int64 (math_Round blocksFloat);
                      predicted = map_option (predicted_height n) blocksRounded;
                      sign = (if sint delta < 0 then ''-'' else ''+'')
                  in \<lparr>printed =
                        [CurrentBlockLine n now,
                         TargetTimeLine target,
                         AvgBlockLine avg,
                         DeltaTimeLine sign delta deltaSeconds,
                         EstimatedBlocksLine sign (map_option absInt64 blocksRounded) blocksFloat,
                         PredictedHeightLine predicted],
                      failure = None\<rparr>))))"

text \<open>A timestamp service that answers every height with \<open>2025-01-01T00:00:00Z\<close>.\<close>

definition new_year_2025 :: "uint64 \<Rightarrow> error + uint64" where
  "new_year_2025 h = Inr 1735689600"

section \<open>The future-time estimator\<close>

text \<open>
  \<open>heimdall_block_time_estimator.go\<close>. Go's \<open>int\<close> is taken as 64 bits wide. What the
  program prints: the current height, its block time, the block time 2000 blocks ago,
  the average block time and the estimated mining time of the target block.
\<close>

definition targetBlock :: int64 where
  "targetBlock = 8788500"

datatype estimator_line =
    CurrentHeight int64
  | CurrentBlockTime time
  | BlockTimeAgo time
  | AverageBlockTime "float64 option"
  | EstimatedMiningTime "time option"

text \<open>
  The arithmetic of \<open>main\<close>: the average block time, the seconds left and the estimated
  time, from the current height \<open>h1\<close>, its block time \<open>t1\<close> and the block time \<open>t2\<close> of
  the block 2000 below. \<open>time.Duration(secondsLeft)\<close> converts the \<open>float64\<close> to an
  \<open>int64\<close>; the product with \<open>time.Second\<close> is an \<open>int64\<close> product, which wraps around.
\<close>

definition estimate :: "int64 \<Rightarrow> time \<Rightarrow> time \<Rightarrow> float64 option \<times> float64 option \<times> time option" where
  "estimate h1 t1 t2 =
     (let avgBlockTime = fdiv (Some (Seconds (Sub t1 t2))) 2000;
          blocksLeft = targetBlock - h1;
          secondsLeft = fmul avgBlockTime (int64_to_float64 blocksLeft);
          estimatedTime =
            map_option (\<lambda>whole. Add t1 (whole * Second)) (float64_to_int64 secondsLeft)
      in (avgBlockTime, secondsLeft, estimatedTime))"

text \<open>\<open>main\<close>, given the result of \<open>fetchHeight\<close> and the function \<open>fetchBlockTime\<close> of the
  height; each error is a panic.\<close>

definition estimator_main ::
  "error + int64 \<Rightarrow> (int64 \<Rightarrow> error + time) \<Rightarrow> estimator_line run" where
  "estimator_main fetchHeight fetchBlockTime =
     (case fetchHeight of
        Inl err \<Rightarrow> \<lparr>printed = [], failure = Some err\<rparr>
      | Inr h1 \<Rightarrow>
         (case fetchBlockTime h1 of
            Inl err \<Rightarrow> \<lparr>printed = [CurrentHeight h1], failure = Some err\<rparr>
          | Inr t1 \<Rightarrow>
             (case fetchBlockTime (h1 - 2000) of
                Inl err \<Rightarrow>
                  \<lparr>printed = [CurrentHeight h1, CurrentBlockTime t1], failure = Some err\<rparr>
              | Inr t2 \<Rightarrow>
                 (case estimate h1 t1 t2 of
                    (avgBlockTime, secondsLeft, estimatedTime) \<Rightarrow>
                      \<lparr>printed =
                         [CurrentHeight h1, CurrentBlockTime t1, BlockTimeAgo t2,
                          AverageBlockTime avgBlockTime, EstimatedMiningTime estimatedTime],
                       failure = None\<rparr>))))"

text \<open>Block times for a run: \<open>2025-01-01T00:00:00Z\<close> at height 8788499 and 3000 seconds
  earlier at every other height.\<close>

definition block_times :: "int64 \<Rightarrow> error + time" where
  "block_times h = (if h = 8788499 then Inr 1735689600000000000 else Inr 1735686600000000000)"

section \<open>The average-block-time programs\<close>

subsection \<open>Heimdall, over REST\<close>

text \<open>
  \<open>getBlockTime\<close>, given the result of \<open>getJSON\<close> for the block (an error, or the
  \<open>time\<close> field of the decoded header) and \<open>time.Parse(time.RFC3339Nano, \<cdot>)\<close>:
\<close>

definition getBlockTime :: "(string \<Rightarrow> error + time) \<Rightarrow> error + string \<Rightarrow> error + time" where
  "getBlockTime parseTime response =
     (case response of
        Inl err \<Rightarrow> Inl err
      | Inr ts \<Rightarrow>
          if ts = [] then Inl EmptyBlockTime
          else (case parseTime ts of
                  Inl err \<Rightarrow> Inl (Wrapped ''parse block time'' err)
                | Inr t \<Rightarrow> Inr t))"

text \<open>
  The lines of the program: the header (latest height and time, earliest height); and
  for a lookback either \<open>SKIP\<close> (lookback, target, earliest height), \<open>ERROR\<close> (lookback,
  target, error) or the average (lookback, target, latest height, elapsed time, average
  seconds per block).
\<close>

datatype avg_line =
    AvgHeader int64 time int64
  | SkipLine int64 int64 int64
  | ErrorLine int64 int64 error
  | AverageLine int64 int64 int64 duration "float64 option"

definition lookbacks :: "int64 list" where
  "lookbacks = [10000, 100000, 1000000, 1500000]"

text \<open>
  One pass of the loop \<open>for _, lb := range lookbacks\<close>, given \<open>getBlockTime\<close> as a
  function of the height: the pass ends at the first \<open>continue\<close> (after \<open>SKIP\<close>, after
  \<open>ERROR\<close>) or after the average is printed.
\<close>

definition lookback_pass :: "(int64 \<Rightarrow> error + time) \<Rightarrow> int64 \<Rightarrow> time \<Rightarrow> int64 \<Rightarrow> int64 \<Rightarrow> avg_line" where
  "lookback_pass getBlockTime_at latestHeight latestTime earliestHeight lb =
     (case lookback_target latestHeight earliestHeight lb of
        None \<Rightarrow> SkipLine lb (latestHeight - lb) earliestHeight
      | Some target \<Rightarrow>
          (case getBlockTime_at target of
             Inl err \<Rightarrow> ErrorLine lb target err
           | Inr t0 \<Rightarrow>
               AverageLine lb target latestHeight (Sub latestTime t0)
                 (fdiv (Some (Seconds (Sub latestTime t0))) (int64_to_float64 lb))))"

text \<open>
  The loop. \<open>fetch i target\<close> is what \<open>getBlockTime\<close> returns in the pass with index \<open>i\<close>,
  asked for the height \<open>target\<close>; a pass that fails does not end the loop.
\<close>

fun lookback_loop ::
  "(nat \<Rightarrow> int64 \<Rightarrow> error + time) \<Rightarrow> nat \<Rightarrow> int64 \<Rightarrow> time \<Rightarrow> int64 \<Rightarrow> int64 list \<Rightarrow> avg_line list" where
  "lookback_loop fetch i latestHeight latestTime earliestHeight [] = []"
| "lookback_loop fetch i latestHeight latestTime earliestHeight (lb # lbs) =
     lookback_pass (fetch i) latestHeight latestTime earliestHeight lb
     # lookback_loop fetch (Suc i) latestHeight latestTime earliestHeight lbs"

definition heimdall_avg_main ::
  "error + (int64 \<times> time \<times> int64) \<Rightarrow> (nat \<Rightarrow> int64 \<Rightarrow> error + time) \<Rightarrow> avg_line run" where
  "heimdall_avg_main latest fetch =
     (case latest of
        Inl err \<Rightarrow> \<lparr>printed = [], failure = Some (Wrapped ''get latest'' err)\<rparr>
      | Inr (latestHeight, latestTime, earliestHeight) \<Rightarrow>
          \<lparr>printed = AvgHeader latestHeight latestTime earliestHeight
                       # lookback_loop fetch 0 latestHeight latestTime earliestHeight lookbacks,
           failure = None\<rparr>)"

text \<open>The program on a REST service: \<open>response i h\<close> is the result of \<open>getJSON\<close> in the pass
  with index \<open>i\<close> for the height \<open>h\<close>.\<close>

definition heimdall_avg_program ::
  "error + (int64 \<times> time \<times> int64) \<Rightarrow> (string \<Rightarrow> error + time) \<Rightarrow> (nat \<Rightarrow> int64 \<Rightarrow> error + string)
     \<Rightarrow> avg_line run" where
  "heimdall_avg_program latest parseTime response =
     heimdall_avg_main latest (\<lambda>i h. getBlockTime parseTime (response i h))"

subsection \<open>Bor, over JSON-RPC\<close>

record block =
  Number :: string
  Timestamp :: string

definition getLatestBlockNumber :: "error option \<Rightarrow> (nat \<Rightarrow> string attempt_outcome) \<Rightarrow> error + uint64" where
  "getLatestBlockNumber newRequest endpoint =
     (case ret (rpcCall newRequest endpoint ''eth_blockNumber'') of
        Inl err \<Rightarrow> Inl err
      | Inr hex \<Rightarrow> hexToUint64 hex)"

text \<open>\<open>respBlock\<close> is a pointer: \<open>None\<close> is \<open>nil\<close>, for a JSON \<open>null\<close> result.\<close>

definition getBlockTimestamp ::
  "error option \<Rightarrow> (nat \<Rightarrow> block option attempt_outcome) \<Rightarrow> uint64 \<Rightarrow> error + uint64" where
  "getBlockTimestamp newRequest endpoint h =
     (case ret (rpcCall newRequest endpoint ''eth_getBlockByNumber'') of
        Inl err \<Rightarrow> Inl err
      | Inr respBlock \<Rightarrow>
          (case respBlock of
             None \<Rightarrow> Inl (EmptyBlock h)
           | Some b \<Rightarrow> if Timestamp b = [] then Inl (EmptyBlock h) else hexToUint64 (Timestamp b)))"

record info =
  height :: uint64
  timestamp :: uint64

text \<open>
  The lines of the program: a warning on the error stream (height, error); the header
  (latest height and its timestamp); and for a reference block the block difference, its
  height and timestamp, the latest height, the difference in seconds and the average.
\<close>

datatype bor_avg_line =
    WarningLine uint64 error
  | CurrentLine uint64 uint64
  | ReferenceLine int64 uint64 uint64 uint64 int64 "float64 option"

definition bor_targets :: "target list" where
  "bor_targets =
     [relative 0, relative (- 40000), relative (- 280000), relative (- 560000),
      relative (- 1120000)]"

text \<open>The loop that resolves the valid heights.\<close>

definition resolve_heights :: "target list \<Rightarrow> uint64 \<Rightarrow> uint64 list" where
  "resolve_heights ts n = map fst (filter snd (map (\<lambda>t. resolve t n) ts))"

text \<open>
  The loop that fetches the timestamps. \<open>fetch k h\<close> is what the call number \<open>k\<close> of
  \<open>getBlockTimestamp\<close> in this run returns, asked for the height \<open>h\<close>. A failure prints a
  warning and the loop continues.
\<close>

fun fetch_loop ::
  "(nat \<Rightarrow> uint64 \<Rightarrow> error + uint64) \<Rightarrow> nat \<Rightarrow> uint64 list \<Rightarrow> (uint64 \<rightharpoonup> info) \<Rightarrow> bor_avg_line list
     \<Rightarrow> (uint64 \<rightharpoonup> info) \<times> bor_avg_line list" where
  "fetch_loop fetch k [] infos warnings = (infos, warnings)"
| "fetch_loop fetch k (h # hs) infos warnings =
     (case fetch k h of
        Inl err \<Rightarrow> fetch_loop fetch (Suc k) hs infos (warnings @ [WarningLine h err])
      | Inr ts \<Rightarrow> fetch_loop fetch (Suc k) hs (infos(h \<mapsto> \<lparr>height = h, timestamp = ts\<rparr>)) warnings)"

text \<open>Reading a Go map at a missing key gives the zero value.\<close>

definition index_info :: "(uint64 \<rightharpoonup> info) \<Rightarrow> uint64 \<Rightarrow> info" where
  "index_info infos h = (case infos h of None \<Rightarrow> \<lparr>height = 0, timestamp = 0\<rparr> | Some x \<Rightarrow> x)"

text \<open>The loop that prints the reference blocks. \<open>math.NaN()\<close> is outside the fragment of
  \<open>float64\<close>, hence \<open>None\<close>.\<close>

fun report_loop :: "uint64 \<Rightarrow> uint64 \<Rightarrow> (uint64 \<rightharpoonup> info) \<Rightarrow> target list \<Rightarrow> bor_avg_line list" where
  "report_loop n nTS infos [] = []"
| "report_loop n nTS infos (t # ts) =
     (case resolve t n of
        (h, ok) \<Rightarrow>
          if \<not> ok \<or> h = n then report_loop n nTS infos ts
          else (case infos h of
                  None \<Rightarrow> report_loop n nTS infos ts
                | Some src \<Rightarrow>
                    (let blockDiff = n - h;
                         secDiff = nTS - timestamp src;
                         avg = (if blockDiff \<noteq> 0
                                then fdiv (Some (int64_to_float64 secDiff)) (int64_to_float64 blockDiff)
                                else None)
                     in ReferenceLine blockDiff h (timestamp src) n secDiff avg
                        # report_loop n nTS infos ts)))"

text \<open>\<open>main\<close>, given the result of \<open>getLatestBlockNumber\<close> and the calls of
  \<open>getBlockTimestamp\<close>. The latest block is fetched once more when the loop did not get
  it; without its timestamp the run exits with status 1.\<close>

definition bor_avg_main :: "error + uint64 \<Rightarrow> (nat \<Rightarrow> uint64 \<Rightarrow> error + uint64) \<Rightarrow> bor_avg_line run" where
  "bor_avg_main latest fetch =
     (case latest of
        Inl err \<Rightarrow> \<lparr>printed = [], failure = Some (Wrapped ''get latest block number'' err)\<rparr>
      | Inr n \<Rightarrow>
          (let heights = resolve_heights bor_targets n
           in case fetch_loop fetch 0 heights Map.empty [] of
                (infos, warnings) \<Rightarrow>
                  (case (case infos n of
                           Some x \<Rightarrow> Some (timestamp x, infos)
                         | None \<Rightarrow>
                             (case fetch (length heights) n of
                                Inl err \<Rightarrow> None
                              | Inr ts \<Rightarrow> Some (ts, infos(n \<mapsto> \<lparr>height = n, timestamp = ts\<rparr>)))) of
                     None \<Rightarrow> \<lparr>printed = warnings, failure = Some (LatestTimestampUnavailable n)\<rparr>
                   | Some (nTS, infos') \<Rightarrow>
                       \<lparr>printed = warnings @ [CurrentLine n (timestamp (index_info infos' n))]
                                   @ report_loop n nTS infos' bor_targets,
                        failure = None\<rparr>)))"

text \<open>The program on a JSON-RPC endpoint: \<open>blockNumber\<close> are the outcomes of the requests
  for the latest block number, \<open>blocks k h\<close> those of the call number \<open>k\<close> for a block.\<close>

definition bor_avg_program ::
  "error option \<Rightarrow> (nat \<Rightarrow> string attempt_outcome) \<Rightarrow> (nat \<Rightarrow> uint64 \<Rightarrow> nat \<Rightarrow> block option attempt_outcome)
     \<Rightarrow> bor_avg_line run" where
  "bor_avg_program newRequest blockNumber blocks =
     bor_avg_main (getLatestBlockNumber newRequest blockNumber)
       (\<lambda>k h. getBlockTimestamp newRequest (blocks k h) h)"



section \<open>Properties of the retry loop\<close>

declare rpcCall_loop.simps [simp del]

lemma rpcCall_loop_failure:
  assumes "attempt < maxRetries" "is_failure (endpoint attempt)"
  shows "rpcCall_loop None endpoint method attempt lastErr slept =
         rpcCall_loop None endpoint method (attempt + 1) (failure_error (endpoint attempt))
           (slept @ [retryBackoff * of_nat (attempt + 1)])"
  using assms by (subst rpcCall_loop.simps) (cases "endpoint attempt"; simp)

lemma rpcCall_loop_result:
  assumes "attempt < maxRetries" "endpoint attempt = Result r"
  shows "rpcCall_loop None endpoint method attempt lastErr slept =
         \<lparr>ret = Inr r, attempts = attempt + 1, sleeps = slept\<rparr>"
  using assms by (subst rpcCall_loop.simps) simp

lemma rpcCall_loop_exhausted:
  assumes "\<not> attempt < maxRetries"
  shows "rpcCall_loop newRequest endpoint method attempt lastErr slept =
         \<lparr>ret = Inl (RPCExhausted method maxRetries lastErr), attempts = attempt, sleeps = slept\<rparr>"
  using assms by (subst rpcCall_loop.simps) simp

lemma rpcCall_loop_all_fail:
  assumes "\<forall>i<maxRetries. is_failure (endpoint i)" "attempt \<le> maxRetries"
  shows "rpcCall_loop None endpoint method attempt lastErr slept =
         \<lparr>ret = Inl (RPCExhausted method maxRetries
                  (if attempt = maxRetries then lastErr else failure_error (endpoint (maxRetries - 1)))),
          attempts = maxRetries,
          sleeps = slept @ map (\<lambda>i. retryBackoff * of_nat (i + 1)) [attempt..<maxRetries]\<rparr>"
  using assms(2)
proof (induction "maxRetries - attempt" arbitrary: attempt lastErr slept)
  case 0
  then have "attempt = maxRetries" by simp
  then show ?case by (simp add: rpcCall_loop_exhausted)
next
  case (Suc n)
  then have lt: "attempt < maxRetries" by simp
  with assms(1) have f: "is_failure (endpoint attempt)" by simp
  have n: "n = maxRetries - (attempt + 1)" using Suc.hyps(2) by simp
  have le: "attempt + 1 \<le> maxRetries" using lt by simp
  have up: "[attempt..<maxRetries] = attempt # [attempt + 1..<maxRetries]"
    using lt by (simp add: upt_conv_Cons)
  have step: "rpcCall_loop None endpoint method attempt lastErr slept =
         rpcCall_loop None endpoint method (attempt + 1) (failure_error (endpoint attempt))
           (slept @ [retryBackoff * of_nat (attempt + 1)])"
    using lt f by (rule rpcCall_loop_failure)
  have err: "(if attempt + 1 = maxRetries then failure_error (endpoint attempt)
              else failure_error (endpoint (maxRetries - 1)))
           = failure_error (endpoint (maxRetries - 1))"
  proof (cases "attempt + 1 = maxRetries")
    case True
    then have "maxRetries - 1 = attempt" by simp
    then show ?thesis by simp
  next
    case False
    then show ?thesis by simp
  qed
  have ne: "attempt \<noteq> maxRetries" using lt by simp
  show ?case
    unfolding step Suc.hyps(1) [OF n le] up err
    by (simp only: ne if_False append_Cons append_Nil append_assoc list.map)
qed

lemma rpcCall_loop_fail_then_result:
  assumes "\<forall>i<k. is_failure (endpoint i)" "endpoint k = Result r" "k < maxRetries" "attempt \<le> k"
  shows "rpcCall_loop None endpoint method attempt lastErr slept =
         \<lparr>ret = Inr r, attempts = k + 1,
          sleeps = slept @ map (\<lambda>i. retryBackoff * of_nat (i + 1)) [attempt..<k]\<rparr>"
  using assms(4)
proof (induction "k - attempt" arbitrary: attempt lastErr slept)
  case 0
  then have "attempt = k" by simp
  then show ?case using assms(2,3) by (simp add: rpcCall_loop_result)
next
  case (Suc n)
  then have lt: "attempt < k" by simp
  with assms(1) have f: "is_failure (endpoint attempt)" by simp
  have lt': "attempt < maxRetries" using lt assms(3) by simp
  have n: "n = k - (attempt + 1)" using Suc.hyps(2) by simp
  have le: "attempt + 1 \<le> k" using lt by simp
  have up: "[attempt..<k] = attempt # [attempt + 1..<k]"
    using lt by (simp add: upt_conv_Cons)
  have step: "rpcCall_loop None endpoint method attempt lastErr slept =
         rpcCall_loop None endpoint method (attempt + 1) (failure_error (endpoint attempt))
           (slept @ [retryBackoff * of_nat (attempt + 1)])"
    using lt' f by (rule rpcCall_loop_failure)
  show ?case
    unfolding step Suc.hyps(1) [OF n le] up
    by (simp only: append_Cons append_Nil append_assoc list.map)
qed

lemma backoff_values:
  "retryBackoff * of_nat (0 + 1) = 600000000"
  "retryBackoff * of_nat (1 + 1) = 1200000000"
  "retryBackoff * of_nat (2 + 1) = 1800000000"
  by (simp_all add: retryBackoff_def)

lemma upt_maxRetries: "[0..<maxRetries] = [0, 1, 2]"
  by (simp add: maxRetries_def upt_rec)

lemma backoff_list:
  "map (\<lambda>i. retryBackoff * of_nat (i + 1)) [0..<maxRetries] = [600000000, 1200000000, 1800000000]"
  unfolding upt_maxRetries list.map backoff_values ..

lemma rpcCall_all_fail_run:
  assumes "\<forall>i<maxRetries. is_failure (endpoint i)"
  shows "rpcCall None endpoint method =
      \<lparr>ret = Inl (RPCExhausted method maxRetries (failure_error (endpoint (maxRetries - 1)))),
       attempts = maxRetries,
       sleeps = [600000000, 1200000000, 1800000000]\<rparr>"
proof -
  have ne: "(0::nat) \<noteq> maxRetries" by (simp add: maxRetries_def)
  have "rpcCall None endpoint method =
      \<lparr>ret = Inl (RPCExhausted method maxRetries
               (if 0 = maxRetries then None else failure_error (endpoint (maxRetries - 1)))),
       attempts = maxRetries,
       sleeps = [] @ map (\<lambda>i. retryBackoff * of_nat (i + 1)) [0..<maxRetries]\<rparr>"
    unfolding rpcCall_def by (rule rpcCall_loop_all_fail [OF assms]) simp
  then show ?thesis
    unfolding backoff_list by (simp only: ne if_False append_Nil)
qed

lemma total_backoff_three: "total_backoff [600000000, 1200000000, 1800000000] = 3600000000"
  by (simp add: total_backoff_def)

lemma sint_retryBackoff: "sint retryBackoff = 600000000"
  by (simp add: retryBackoff_def)

text \<open>
  Claim C1, as the code has it. When every request of a call fails (in transport, in
  decoding, or with a populated error field), \<open>rpcCall\<close> makes exactly \<open>maxRetries = 3\<close>
  requests and returns the exhaustion error built from the failure of the last one. The
  pass with index \<open>i\<close> sleeps \<open>retryBackoff * (i + 1)\<close> after it failed, and so does the
  last pass: the sleeps are those of the indices 0, 1 and 2, their sum is
  \<open>retryBackoff * (1 + 2 + 3)\<close>, which is at least \<open>retryBackoff * (1 + 2)\<close>.
\<close>

theorem rpcCall_all_attempts_fail:
  assumes "\<forall>i<maxRetries. is_failure (endpoint i)"
  shows "attempts (rpcCall None endpoint method) = maxRetries
       \<and> maxRetries = 3
       \<and> ret (rpcCall None endpoint method)
           = Inl (RPCExhausted method maxRetries (failure_error (endpoint (maxRetries - 1))))
       \<and> sleeps (rpcCall None endpoint method)
           = map (\<lambda>i. retryBackoff * of_nat (i + 1)) [0..<maxRetries]
       \<and> total_backoff (sleeps (rpcCall None endpoint method)) = sint retryBackoff * (1 + 2 + 3)
       \<and> sint retryBackoff * (1 + 2) \<le> total_backoff (sleeps (rpcCall None endpoint method))"
  unfolding rpcCall_all_fail_run [OF assms] backoff_list
  by (simp add: total_backoff_three sint_retryBackoff maxRetries_def)

text \<open>The endpoint that is always down satisfies the hypothesis of C1.\<close>

theorem rpcCall_all_attempts_fail_witness:
  "is_failure (always_down 0) \<and> is_failure (always_down 1) \<and> is_failure (always_down 2)
    \<and> attempts (rpcCall None always_down ''eth_blockNumber'') = 3
    \<and> ret (rpcCall None always_down ''eth_blockNumber'')
        = Inl (RPCExhausted ''eth_blockNumber'' 3 (Some (TransportError ''connection refused'')))
    \<and> sleeps (rpcCall None always_down ''eth_blockNumber'') = [600000000, 1200000000, 1800000000]"
proof -
  have h: "\<forall>i<maxRetries. is_failure (always_down i)"
    by (simp add: always_down_def)
  have e: "failure_error (always_down (maxRetries - 1)) = Some (TransportError ''connection refused'')"
    by (simp add: always_down_def)
  note t = rpcCall_all_attempts_fail [OF h, of "''eth_blockNumber''", unfolded backoff_list e]
  have m: "maxRetries = 3" using t by blast
  have "attempts (rpcCall None always_down ''eth_blockNumber'') = 3"
    using t m by simp
  moreover have "ret (rpcCall None always_down ''eth_blockNumber'')
        = Inl (RPCExhausted ''eth_blockNumber'' 3 (Some (TransportError ''connection refused'')))"
    using t m by simp
  moreover have "sleeps (rpcCall None always_down ''eth_blockNumber'')
        = [600000000, 1200000000, 1800000000]"
    using t by blast
  moreover have "is_failure (always_down 0)" "is_failure (always_down 1)" "is_failure (always_down 2)"
    by (simp_all add: always_down_def)
  ultimately show ?thesis by blast
qed

text \<open>
  Claim C1 as stated says that no sleep follows the final failed attempt, so that three
  failed attempts give two sleeps. On the endpoint that is always down the loop sleeps
  three times, the third time for 1.8 s after the third and last request.
\<close>

theorem rpcCall_sleeps_after_final_attempt:
  "attempts (rpcCall None always_down ''eth_blockNumber'') = 3
   \<and> sleeps (rpcCall None always_down ''eth_blockNumber'') = [600000000, 1200000000, 1800000000]
   \<and> length (sleeps (rpcCall None always_down ''eth_blockNumber'')) \<noteq> 3 - 1"
proof -
  have h: "\<forall>i<maxRetries. is_failure (always_down i)"
    by (simp add: always_down_def)
  show ?thesis
    unfolding rpcCall_all_fail_run [OF h] by (simp add: maxRetries_def)
qed

text \<open>
  Claim C2. When the first two requests fail in transport and the third is answered,
  \<open>rpcCall\<close> returns the result of that answer and has made exactly three requests, which
  is \<open>maxRetries\<close>.
\<close>

theorem rpcCall_third_attempt_succeeds:
  assumes "endpoint 0 = TransportFails e0" "endpoint 1 = TransportFails e1" "endpoint 2 = Result r"
  shows "ret (rpcCall None endpoint method) = Inr r
       \<and> attempts (rpcCall None endpoint method) = 3
       \<and> attempts (rpcCall None endpoint method) = maxRetries"
proof -
  have fails: "\<forall>i<2. is_failure (endpoint i)"
  proof (intro allI impI)
    fix i :: nat
    assume "i < 2"
    then have "i = 0 \<or> i = 1" by arith
    then show "is_failure (endpoint i)" using assms(1,2) by auto
  qed
  have lt: "(2::nat) < maxRetries" by (simp add: maxRetries_def)
  have "rpcCall None endpoint method =
        \<lparr>ret = Inr r, attempts = 2 + 1,
         sleeps = [] @ map (\<lambda>i. retryBackoff * of_nat (i + 1)) [0..<2]\<rparr>"
    unfolding rpcCall_def
    using fails assms(3) lt by (rule rpcCall_loop_fail_then_result) simp
  then show ?thesis by (simp add: maxRetries_def)
qed

text \<open>An endpoint that answers the third request satisfies the hypotheses of C2.\<close>

theorem rpcCall_third_attempt_succeeds_witness:
  "third_time_lucky 0 = TransportFails ''connection refused''
   \<and> third_time_lucky 1 = TransportFails ''connection refused''
   \<and> third_time_lucky 2 = Result ''0x10''
   \<and> ret (rpcCall None third_time_lucky ''eth_blockNumber'') = Inr ''0x10''
   \<and> attempts (rpcCall None third_time_lucky ''eth_blockNumber'') = 3"
proof -
  have h0: "third_time_lucky 0 = TransportFails ''connection refused''"
   and h1: "third_time_lucky 1 = TransportFails ''connection refused''"
   and h2: "third_time_lucky 2 = Result ''0x10''"
    by (simp_all add: third_time_lucky_def)
  show ?thesis
    using h0 h1 h2 rpcCall_third_attempt_succeeds [OF h0 h1 h2, of "''eth_blockNumber''"]
    by simp
qed

section \<open>Properties of hexToUint64\<close>

subsection \<open>The digit values of the scanner\<close>

lemma digitVal_table:
  "list_all (\<lambda>c. digitVal c = hexDigitValue c \<and> digitVal c < 16) ''0123456789abcdefABCDEF''"
  by code_simp

lemma digitVal_isHexDigit:
  assumes "isHexDigit c"
  shows "digitVal c = hexDigitValue c \<and> digitVal c < 16"
  using assms digitVal_table unfolding isHexDigit_def list_all_iff by blast

lemma char_of_range:
  assumes "lo \<le> n" "n < hi"
  shows "(char_of (n::nat) :: char) \<in> set (map char_of [lo..<hi])"
proof -
  have "n \<in> {lo..<hi}" using assms by (simp only: atLeastLessThan_iff)
  then show ?thesis by (simp only: set_map set_upt) (rule imageI)
qed

lemma chars_decimal: "map char_of [48..<58::nat] = ''0123456789''"
  by code_simp

lemma chars_lower: "map char_of [97..<103::nat] = ''abcdef''"
  by code_simp

lemma chars_upper: "map char_of [65..<71::nat] = ''ABCDEF''"
  by code_simp

lemma digitVal_lt16_isHexDigit:
  assumes "digitVal c < 16"
  shows "isHexDigit c"
proof -
  define n where "n = (of_char c :: nat)"
  have c: "c = char_of n" by (simp add: n_def)
  have n: "(of_char c :: nat) = n" by (simp add: n_def)
  have "(48 \<le> n \<and> n < 58) \<or> (97 \<le> n \<and> n < 103) \<or> (65 \<le> n \<and> n < 71)"
    using assms unfolding digitVal_def n Let_def
    by (simp split: if_splits)
  then have "c \<in> set ''0123456789'' \<or> c \<in> set ''abcdef'' \<or> c \<in> set ''ABCDEF''"
    using char_of_range [of 48 n 58] char_of_range [of 97 n 103] char_of_range [of 65 n 71]
    unfolding chars_decimal chars_lower chars_upper c [symmetric] by blast
  then have "c \<in> set (''0123456789'' @ ''abcdef'' @ ''ABCDEF'')"
    by (simp only: set_append Un_iff)
  then show ?thesis by (simp only: isHexDigit_def append.simps)
qed

lemma digitVal_ge16_iff: "16 \<le> digitVal c \<longleftrightarrow> \<not> isHexDigit c"
proof
  assume "16 \<le> digitVal c"
  then show "\<not> isHexDigit c" using digitVal_isHexDigit [of c] by auto
next
  assume "\<not> isHexDigit c"
  then have "\<not> digitVal c < 16" using digitVal_lt16_isHexDigit [of c] by blast
  then show "16 \<le> digitVal c" by simp
qed

subsection \<open>The scanner on hexadecimal numerals\<close>

lemma nat_scan_hex:
  assumes "list_all isHexDigit ds"
  shows "nat_scan 16 ds z k = (z * 16 ^ length ds + hex_value ds, k + length ds, [])"
  using assms
proof (induction ds arbitrary: z k)
  case Nil
  then show ?case by simp
next
  case (Cons c cs)
  then have c: "isHexDigit c" and cs: "list_all isHexDigit cs" by simp_all
  have d: "digitVal c = hexDigitValue c" "\<not> 16 \<le> digitVal c"
    using digitVal_isHexDigit [OF c] by simp_all
  have "nat_scan 16 (c # cs) z k = nat_scan 16 cs (z * 16 + hexDigitValue c) (k + 1)"
    by (simp only: nat_scan.simps d(2) if_False) (simp only: d(1))
  also have "\<dots> = ((z * 16 + hexDigitValue c) * 16 ^ length cs + hex_value cs, (k + 1) + length cs, [])"
    by (rule Cons.IH [OF cs])
  finally show ?case by (simp add: algebra_simps)
qed

lemma nat_scan_rest:
  assumes "\<not> list_all isHexDigit ds"
  shows "snd (snd (nat_scan 16 ds z k)) \<noteq> []"
  using assms
proof (induction ds arbitrary: z k)
  case Nil
  then show ?case by simp
next
  case (Cons c cs)
  show ?case
  proof (cases "isHexDigit c")
    case True
    then have "\<not> 16 \<le> digitVal c" using digitVal_isHexDigit [of c] by simp
    moreover have "\<not> list_all isHexDigit cs" using Cons.prems True by simp
    ultimately show ?thesis using Cons.IH by (simp)
  next
    case False
    then have "16 \<le> digitVal c" by (simp add: digitVal_ge16_iff)
    then show ?thesis by simp
  qed
qed

lemma SetString_parts:
  "SetString s 16 =
     (case nat_scan 16 (unsigned_part s) 0 0 of
        (z, count, rest) \<Rightarrow>
          if s = [] \<or> count = 0 \<or> rest \<noteq> [] then None
          else Some (if has_minus s then - int z else int z))"
  by (cases s) (auto simp: SetString_def unsigned_part_def has_minus_def Let_def split: prod.splits)

lemma SetString_16:
  "SetString s 16 =
     (if hex_numeral (unsigned_part s)
      then Some (if has_minus s then - int (hex_value (unsigned_part s))
                 else int (hex_value (unsigned_part s)))
      else None)"
proof (cases "list_all isHexDigit (unsigned_part s)")
  case True
  have "unsigned_part s \<noteq> [] \<Longrightarrow> s \<noteq> []" by (auto simp: unsigned_part_def)
  then show ?thesis
    unfolding SetString_parts nat_scan_hex [OF True] hex_numeral_def
    using True by auto
next
  case False
  obtain z count rest where r: "nat_scan 16 (unsigned_part s) 0 0 = (z, count, rest)"
    by (cases "nat_scan 16 (unsigned_part s) 0 0") auto
  have "rest \<noteq> []" using nat_scan_rest [OF False, of 0 0] r by simp
  then show ?thesis
    unfolding SetString_parts r hex_numeral_def using False by simp
qed

lemma HasPrefix_two:
  "length p = 2 \<Longrightarrow> HasPrefix h p \<longleftrightarrow> take 2 h = p"
  by (auto simp: HasPrefix_def)

lemma hexToUint64_cases:
  "hexToUint64 h =
     (if strip0x h = [] then Inl EmptyHexString
      else if \<not> hex_numeral (unsigned_part (strip0x h)) then Inl (InvalidHex (strip0x h))
      else if (has_minus (strip0x h) \<and> hex_value (unsigned_part (strip0x h)) \<noteq> 0)
              \<or> 2 ^ 64 \<le> hex_value (unsigned_part (strip0x h))
           then Inl (OutOfUint64Range (strip0x h))
      else Inr (of_nat (hex_value (unsigned_part (strip0x h)))))"
proof -
  define s where "s = strip0x h"
  define n where "n = hex_value (unsigned_part s)"
  have s: "(if HasPrefix h ''0x'' \<or> HasPrefix h ''0X'' then drop 2 h else h) = s"
    by (simp add: HasPrefix_two strip0x_def s_def)
  have h: "hexToUint64 h =
        (if s = [] then Inl EmptyHexString
         else case SetString s 16 of
                None \<Rightarrow> Inl (InvalidHex s)
              | Some bi \<Rightarrow>
                  if bi < 0 \<or> \<not> IsUint64 bi then Inl (OutOfUint64Range s)
                  else Inr (word_of_int bi))"
    unfolding hexToUint64_def s Let_def ..
  have big: "2 ^ 64 \<le> n \<longleftrightarrow> \<not> int n < 2 ^ 64"
  proof -
    have "int n < 2 ^ 64 \<longleftrightarrow> int n < int (2 ^ 64)" by simp
    also have "\<dots> \<longleftrightarrow> n < 2 ^ 64" by (simp only: of_nat_less_iff)
    finally show ?thesis by (simp only: not_less)
  qed
  show ?thesis
  proof (cases "s = []")
    case True
    then show ?thesis unfolding h s_def [symmetric] by simp
  next
    case ne: False
    show ?thesis
    proof (cases "hex_numeral (unsigned_part s)")
      case False
      then show ?thesis unfolding h s_def [symmetric] SetString_16 using ne by simp
    next
      case num: True
      show ?thesis
      proof (cases "has_minus s")
        case True
        have "SetString s 16 = Some (- int n)"
          unfolding SetString_16 n_def using num True by simp
        moreover have "- int n < 0 \<or> \<not> IsUint64 (- int n) \<longleftrightarrow> n \<noteq> 0"
          by (auto simp: IsUint64_def)
        moreover have "n = 0 \<Longrightarrow> \<not> (2::nat) ^ 64 \<le> n" by simp
        ultimately show ?thesis
          unfolding h s_def [symmetric] n_def [symmetric] using ne num True
          by (cases "n = 0") simp_all
      next
        case False
        have "SetString s 16 = Some (int n)"
          unfolding SetString_16 n_def using num False by simp
        moreover have "int n < 0 \<or> \<not> IsUint64 (int n) \<longleftrightarrow> 2 ^ 64 \<le> n"
          unfolding IsUint64_def big by simp
        ultimately show ?thesis
          unfolding h s_def [symmetric] n_def [symmetric] using ne num False
          by (cases "(2::nat) ^ 64 \<le> n") simp_all
      qed
    qed
  qed
qed

lemma hex_numeral_no_prefix:
  assumes "hex_numeral ds"
  shows "strip0x ds = ds"
proof -
  have x: "\<not> isHexDigit CHR ''x''" "\<not> isHexDigit CHR ''X''"
    by (simp_all add: isHexDigit_def)
  have "take 2 ds \<noteq> ''0x'' \<and> take 2 ds \<noteq> ''0X''"
  proof (cases ds)
    case Nil
    then show ?thesis by simp
  next
    case (Cons a as)
    then show ?thesis using assms x by (cases as) (auto simp: hex_numeral_def)
  qed
  then show ?thesis by (simp add: strip0x_def)
qed

lemma strip0x_prefixed: "strip0x (''0x'' @ ds) = ds" "strip0x (''0X'' @ ds) = ds"
  by (simp_all add: strip0x_def)

lemma hex_numeral_no_sign:
  assumes "hex_numeral ds"
  shows "unsigned_part ds = ds" "\<not> has_minus ds"
proof -
  have x: "\<not> isHexDigit CHR ''-''" "\<not> isHexDigit CHR ''+''"
    by (simp_all add: isHexDigit_def)
  obtain a as where ds: "ds = a # as" using assms by (cases ds) (auto simp: hex_numeral_def)
  have "isHexDigit a" using assms ds by (simp add: hex_numeral_def)
  then have "a \<noteq> CHR ''-''" "a \<noteq> CHR ''+''" using x by auto
  then show "unsigned_part ds = ds" "\<not> has_minus ds"
    by (simp_all add: unsigned_part_def has_minus_def ds)
qed

lemma hexToUint64_numeral:
  assumes "hex_numeral ds" "hex_value ds = unat (v :: uint64)" "strip0x h = ds"
  shows "hexToUint64 h = Inr v"
proof -
  have ne: "ds \<noteq> []" using assms(1) by (simp add: hex_numeral_def)
  have small: "\<not> 2 ^ 64 \<le> hex_value ds"
  proof -
    have "unat v < 2 ^ 64" using unsigned_less [of v] by simp
    then show ?thesis unfolding assms(2) by simp
  qed
  have v: "of_nat (hex_value ds) = v" unfolding assms(2) by simp
  show ?thesis
    unfolding hexToUint64_cases assms(3) hex_numeral_no_sign(1) [OF assms(1)]
    using ne assms(1) small v hex_numeral_no_sign(2) [OF assms(1)]
    by (simp only: if_False if_True not_False_eq_True simp_thms)
qed

lemma hex_value_snoc: "hex_value (cs @ [c]) = hex_value cs * 16 + hexDigitValue c"
  by (induction cs) (simp_all add: algebra_simps)

lemma hexDigit_table:
  "list_all (\<lambda>d. isHexDigit (hexDigit d) \<and> hexDigitValue (hexDigit d) = d) [0..<16]"
  by code_simp

lemma hexDigit_props:
  assumes "d < 16"
  shows "isHexDigit (hexDigit d)" "hexDigitValue (hexDigit d) = d"
proof -
  have "d \<in> set [0..<16]" using assms by simp
  then have "isHexDigit (hexDigit d) \<and> hexDigitValue (hexDigit d) = d"
    using hexDigit_table unfolding list_all_iff by blast
  then show "isHexDigit (hexDigit d)" "hexDigitValue (hexDigit d) = d" by simp_all
qed

declare hexDigits.simps [simp del]

lemma hexDigits_numeral: "hex_numeral (hexDigits n) \<and> hex_value (hexDigits n) = n"
proof (induction n rule: hexDigits.induct)
  case (1 n)
  show ?case
  proof (cases "n < 16")
    case True
    then show ?thesis
      by (subst (1 2) hexDigits.simps) (simp add: hex_numeral_def hexDigit_props)
  next
    case False
    have m: "n mod 16 < 16" by simp
    have eq: "hexDigits n = hexDigits (n div 16) @ [hexDigit (n mod 16)]"
      using False by (subst hexDigits.simps) simp
    show ?thesis
      unfolding eq hex_value_snoc
      using "1.IH" [OF False] hexDigit_props [OF m]
      by (simp add: hex_numeral_def)
  qed
qed

text \<open>
  Claim C3. Let \<open>v\<close> be a \<open>uint64\<close> and \<open>ds\<close> a hexadecimal numeral (digits of either case,
  leading zeros allowed) that denotes \<open>v\<close>. Then \<open>hexToUint64\<close> returns \<open>v\<close> on \<open>ds\<close>, on
  \<open>0x\<close> followed by \<open>ds\<close> and on \<open>0X\<close> followed by \<open>ds\<close>; and it returns \<open>v\<close> on the
  rendering \<open>toHex v\<close> of \<open>v\<close>.
\<close>

theorem hexToUint64_round_trip:
  assumes "hex_numeral ds" "hex_value ds = unat (v :: uint64)"
    and "pre = [] \<or> pre = ''0x'' \<or> pre = ''0X''"
  shows "hexToUint64 (pre @ ds) = Inr v \<and> hexToUint64 (toHex v) = Inr v"
proof
  have "strip0x (pre @ ds) = ds"
    using assms(3) hex_numeral_no_prefix [OF assms(1)] strip0x_prefixed [of ds] by auto
  with assms(1,2) show "hexToUint64 (pre @ ds) = Inr v" by (rule hexToUint64_numeral)
next
  have "hex_numeral (hexDigits (unat v))" "hex_value (hexDigits (unat v)) = unat v"
    using hexDigits_numeral [of "unat v"] by simp_all
  moreover have "strip0x (toHex v) = hexDigits (unat v)"
    unfolding toHex_def by (rule strip0x_prefixed)
  ultimately show "hexToUint64 (toHex v) = Inr v" by (rule hexToUint64_numeral)
qed

text \<open>The numeral \<open>00fF\<close> denotes 255 and satisfies the hypotheses of C3.\<close>

theorem hexToUint64_round_trip_witness:
  "hex_numeral ''00fF'' \<and> hex_value ''00fF'' = unat (255 :: uint64)
   \<and> hexToUint64 (''0X'' @ ''00fF'') = Inr 255 \<and> hexToUint64 (toHex 255) = Inr 255"
proof -
  have h1: "hex_numeral ''00fF''" by code_simp
  have h2: "hex_value ''00fF'' = unat (255 :: uint64)" by code_simp
  have h3: "''0X'' = [] \<or> ''0X'' = ''0x'' \<or> ''0X'' = ''0X''" by simp
  show ?thesis
    using h1 h2 hexToUint64_round_trip [OF h1 h2 h3] by simp
qed

text \<open>
  Claim C4, as the code has it. Let \<open>s\<close> be the input without its optional \<open>0x\<close> or
  \<open>0X\<close>. \<open>hexToUint64\<close> returns an error exactly when \<open>s\<close> is empty (the empty string
  and a bare prefix), or \<open>s\<close> without one optional leading sign \<open>+\<close> or \<open>-\<close> is not a
  hexadecimal numeral (it is empty or has a character that is no hexadecimal digit), or
  \<open>s\<close> has the sign \<open>-\<close> in front of a numeral that is not zero, or the numeral denotes
  more than \<open>2^64 - 1\<close>. The errors are, in this order, \<open>empty hex string\<close>,
  \<open>invalid hex\<close> and \<open>out of uint64 range\<close>; on every other input the value the numeral
  denotes is returned, so a leading \<open>+\<close> is accepted and \<open>-0\<close> is 0.
\<close>

theorem hexToUint64_fails_iff:
  "(isl (hexToUint64 h) \<longleftrightarrow>
      strip0x h = []
    \<or> \<not> hex_numeral (unsigned_part (strip0x h))
    \<or> (has_minus (strip0x h) \<and> hex_value (unsigned_part (strip0x h)) \<noteq> 0)
    \<or> 2 ^ 64 \<le> hex_value (unsigned_part (strip0x h)))
   \<and> hexToUint64 h =
     (if strip0x h = [] then Inl EmptyHexString
      else if \<not> hex_numeral (unsigned_part (strip0x h)) then Inl (InvalidHex (strip0x h))
      else if (has_minus (strip0x h) \<and> hex_value (unsigned_part (strip0x h)) \<noteq> 0)
              \<or> 2 ^ 64 \<le> hex_value (unsigned_part (strip0x h))
           then Inl (OutOfUint64Range (strip0x h))
      else Inr (of_nat (hex_value (unsigned_part (strip0x h)))))"
proof
  show "isl (hexToUint64 h) \<longleftrightarrow>
      strip0x h = []
    \<or> \<not> hex_numeral (unsigned_part (strip0x h))
    \<or> (has_minus (strip0x h) \<and> hex_value (unsigned_part (strip0x h)) \<noteq> 0)
    \<or> 2 ^ 64 \<le> hex_value (unsigned_part (strip0x h))"
    unfolding hexToUint64_cases by (simp only: isl_def) auto
qed (rule hexToUint64_cases)

text \<open>
  The bad inputs of C4, each rejected with its error, computed through the
  characterisation above.
\<close>

theorem hexToUint64_fails_iff_witness:
  "hexToUint64 [] = Inl EmptyHexString
   \<and> hexToUint64 ''0x'' = Inl EmptyHexString
   \<and> hexToUint64 ''xyz'' = Inl (InvalidHex ''xyz'')
   \<and> hexToUint64 ''-1'' = Inl (OutOfUint64Range ''-1'')
   \<and> hexToUint64 ''0x10000000000000000'' = Inl (OutOfUint64Range ''10000000000000000'')
   \<and> isl (hexToUint64 ''xyz'')"
proof -
  have e1: "strip0x [] = []" and e2: "strip0x ''0x'' = []"
    by (simp_all add: strip0x_def)
  have x1: "strip0x ''xyz'' = ''xyz''" and x2: "\<not> hex_numeral (unsigned_part ''xyz'')"
    by (simp_all add: strip0x_def hex_numeral_def unsigned_part_def isHexDigit_def)
  have m1: "strip0x ''-1'' = ''-1''" and m2: "hex_numeral (unsigned_part ''-1'')"
    and m3: "has_minus ''-1''" and m4: "hex_value (unsigned_part ''-1'') \<noteq> 0"
    by (simp_all add: strip0x_def hex_numeral_def unsigned_part_def isHexDigit_def has_minus_def
          hexDigitValue_def)
  have b1: "strip0x ''0x10000000000000000'' = ''10000000000000000''"
    and b2: "hex_numeral (unsigned_part ''10000000000000000'')"
    and b3: "2 ^ 64 \<le> hex_value (unsigned_part ''10000000000000000'')"
    by (simp_all add: strip0x_def hex_numeral_def unsigned_part_def isHexDigit_def hexDigitValue_def)
  have "hexToUint64 [] = Inl EmptyHexString"
    using hexToUint64_fails_iff [of "[]", THEN conjunct2]
    by (simp only: e1 if_True simp_thms)
  moreover have "hexToUint64 ''0x'' = Inl EmptyHexString"
    using hexToUint64_fails_iff [of "''0x''", THEN conjunct2]
    by (simp only: e2 if_True simp_thms)
  moreover have "hexToUint64 ''xyz'' = Inl (InvalidHex ''xyz'')"
    using hexToUint64_fails_iff [of "''xyz''", THEN conjunct2] x2
    by (simp only: x1 list.distinct if_False if_True simp_thms)
  moreover have "hexToUint64 ''-1'' = Inl (OutOfUint64Range ''-1'')"
    using hexToUint64_fails_iff [of "''-1''", THEN conjunct2] m2 m3 m4
    by (simp only: m1 list.distinct if_False if_True simp_thms)
  moreover have "hexToUint64 ''0x10000000000000000'' = Inl (OutOfUint64Range ''10000000000000000'')"
    using hexToUint64_fails_iff [of "''0x10000000000000000''", THEN conjunct2] b2 b3
    by (simp only: b1 list.distinct if_False if_True simp_thms)
  moreover have "isl (hexToUint64 ''xyz'')"
    using hexToUint64_fails_iff [of "''xyz''", THEN conjunct1] x2
    by (simp only: x1 simp_thms)
  ultimately show ?thesis by blast
qed

text \<open>
  Claim C4 as stated says that every input with a negative sign, and every string with a
  character that is no hexadecimal digit, is rejected. \<open>-0\<close> has a negative sign and
  \<open>+ff\<close> has the character \<open>+\<close>; both are accepted.
\<close>

theorem hexToUint64_rejects_and_accepts:
  "hexToUint64 ''-0'' = Inr 0 \<and> hexToUint64 ''+ff'' = Inr 255"
  by code_simp

section \<open>64-bit words as integers\<close>

lemma sint64_range: "- (2 ^ 63) \<le> sint (x :: 64 word)" "sint (x :: 64 word) < 2 ^ 63"
  using sint_ge [of x] sint_lt [of x] by simp_all

lemma uint64_range: "0 \<le> uint (x :: 64 word)" "uint (x :: 64 word) < 2 ^ 64"
  using uint_bounded [of x] by simp_all

lemma sint_of_int_id:
  assumes "- (2 ^ 63) \<le> k" "k < 2 ^ 63"
  shows "sint (word_of_int k :: 64 word) = k"
  using assms by (simp add: sint_sbintrunc' signed_take_bit_int_eq_self)

lemma uint_of_int_id:
  assumes "0 \<le> k" "k < 2 ^ 64"
  shows "uint (word_of_int k :: 64 word) = k"
  using assms by (simp add: uint_word_of_int)

lemma word_of_sint: "(word_of_int (sint x) :: 64 word) = x"
  by simp

lemma word_of_uint: "(word_of_int (uint x) :: 64 word) = x"
  by simp

lemma sint_add_in_range:
  fixes a b :: "64 word"
  assumes "- (2 ^ 63) \<le> sint a + sint b" "sint a + sint b < 2 ^ 63"
  shows "sint (a + b) = sint a + sint b"
proof -
  have "a + b = word_of_int (sint a + sint b)" by simp
  then show ?thesis using sint_of_int_id [OF assms] by simp
qed

lemma sint_sub_in_range:
  fixes a b :: "64 word"
  assumes "- (2 ^ 63) \<le> sint a - sint b" "sint a - sint b < 2 ^ 63"
  shows "sint (a - b) = sint a - sint b"
proof -
  have "a - b = word_of_int (sint a - sint b)" by simp
  then show ?thesis using sint_of_int_id [OF assms] by simp
qed

lemma uint_neg_negative:
  fixes x :: "64 word"
  assumes "sint x < 0"
  shows "uint (- x) = - sint x"
proof -
  have "- x = word_of_int (- sint x)" by simp
  moreover have "0 \<le> - sint x" "- sint x < 2 ^ 64"
    using assms sint64_range(1) [of x] by simp_all
  ultimately show ?thesis using uint_of_int_id [of "- sint x"] by simp
qed

lemma uint_sub_le:
  fixes n d :: "64 word"
  assumes "\<not> n < d"
  shows "uint (n - d) = uint n - uint d"
  using assms by (simp add: uint_sub_lem word_less_def not_less word_le_def)

lemma sint_eq_uint_small:
  fixes x :: "64 word"
  assumes "uint x < 2 ^ 63"
  shows "sint x = uint x"
proof -
  have "x = word_of_int (uint x)" by simp
  then have "sint x = sint (word_of_int (uint x) :: 64 word)" by simp
  also have "\<dots> = uint x"
  proof (rule sint_of_int_id)
    have "0 \<le> uint x" "(0::int) < 2 ^ 63" by simp_all
    then show "- (2 ^ 63) \<le> uint x" by linarith
    show "uint x < 2 ^ 63" by (rule assms)
  qed
  finally show ?thesis .
qed

section \<open>Properties of lookback resolution\<close>

lemma resolve_relative_negative:
  assumes "sint d < 0"
  shows "resolve (relative d) n =
           (if uint n + sint d < 0 then (0, False) else (n - (- d), True))"
    and "\<not> uint n + sint d < 0 \<Longrightarrow> uint (n - (- d)) = uint n + sint d"
proof -
  have lt: "n < - d \<longleftrightarrow> uint n + sint d < 0"
    unfolding word_less_def uint_neg_negative [OF assms] by auto
  show "resolve (relative d) n =
           (if uint n + sint d < 0 then (0, False) else (n - (- d), True))"
    using assms by (simp add: resolve_def relative_def Let_def lt)
  assume "\<not> uint n + sint d < 0"
  then have "\<not> n < - d" by (simp add: lt)
  then have "uint (n - (- d)) = uint n - uint (- d)" by (rule uint_sub_le)
  then show "uint (n - (- d)) = uint n + sint d"
    unfolding uint_neg_negative [OF assms] by simp
qed

lemma resolve_examples:
  "resolve (relative (- 2000)) 1000 = (0, False)"
  "resolve (relative (- 500)) 1000 = (500, True)"
  "resolve (relative 0) 1000 = (1000, True)"
  by (simp_all add: resolve_def relative_def)

lemma lookback_target_in_range:
  assumes "0 \<le> sint latestHeight" "0 \<le> sint lb"
  shows "lookback_target latestHeight earliestHeight lb =
           (if sint latestHeight - sint lb < sint earliestHeight then None
            else Some (latestHeight - lb))"
    and "sint (latestHeight - lb) = sint latestHeight - sint lb"
proof -
  show s: "sint (latestHeight - lb) = sint latestHeight - sint lb"
    using assms sint64_range [of latestHeight] sint64_range [of lb]
    by (intro sint_sub_in_range) simp_all
  show "lookback_target latestHeight earliestHeight lb =
           (if sint latestHeight - sint lb < sint earliestHeight then None
            else Some (latestHeight - lb))"
    by (simp add: lookback_target_def Let_def s)
qed

text \<open>
  Claim C5. Resolution is a function of the target and the latest height (and, in the
  Heimdall program, of the earliest available height). With latest height 1000 the
  relative delta \<open>-2000\<close> resolves to unavailable (\<open>ok = False\<close>, no error), \<open>-500\<close> to
  height 500 and \<open>0\<close> to height 1000. In general a negative relative delta \<open>d\<close> resolves
  to unavailable when \<open>n + d\<close> is below zero and to the height \<open>n + d\<close> otherwise; and for
  a non-negative latest height and lookback, the Heimdall lookback is skipped when
  \<open>latestHeight - lb\<close> is below the earliest available height and resolves to
  \<open>latestHeight - lb\<close> otherwise.
\<close>

theorem lookback_resolution:
  "resolve (relative (- 2000)) 1000 = (0, False)
   \<and> resolve (relative (- 500)) 1000 = (500, True)
   \<and> resolve (relative 0) 1000 = (1000, True)
   \<and> (sint d < 0 \<and> uint n + sint d < 0 \<longrightarrow> resolve (relative d) n = (0, False))
   \<and> (sint d < 0 \<and> 0 \<le> uint n + sint d \<longrightarrow>
        (\<exists>h. resolve (relative d) n = (h, True) \<and> uint h = uint n + sint d))
   \<and> (0 \<le> sint latestHeight \<and> 0 \<le> sint lb
        \<and> sint latestHeight - sint lb < sint earliestHeight \<longrightarrow>
        lookback_target latestHeight earliestHeight lb = None)
   \<and> (0 \<le> sint latestHeight \<and> 0 \<le> sint lb
        \<and> sint earliestHeight \<le> sint latestHeight - sint lb \<longrightarrow>
        (\<exists>h. lookback_target latestHeight earliestHeight lb = Some h
              \<and> sint h = sint latestHeight - sint lb))"
proof -
  have r1: "sint d < 0 \<and> uint n + sint d < 0 \<longrightarrow> resolve (relative d) n = (0, False)"
    using resolve_relative_negative(1) [of d n] by simp
  have r2: "sint d < 0 \<and> 0 \<le> uint n + sint d \<longrightarrow>
        (\<exists>h. resolve (relative d) n = (h, True) \<and> uint h = uint n + sint d)"
    using resolve_relative_negative [of d n] by (simp add: not_less)
  have l1: "0 \<le> sint latestHeight \<and> 0 \<le> sint lb
        \<and> sint latestHeight - sint lb < sint earliestHeight \<longrightarrow>
        lookback_target latestHeight earliestHeight lb = None"
    using lookback_target_in_range(1) [of latestHeight lb earliestHeight] by simp
  have l2: "0 \<le> sint latestHeight \<and> 0 \<le> sint lb
        \<and> sint earliestHeight \<le> sint latestHeight - sint lb \<longrightarrow>
        (\<exists>h. lookback_target latestHeight earliestHeight lb = Some h
              \<and> sint h = sint latestHeight - sint lb)"
    using lookback_target_in_range(1) [of latestHeight lb earliestHeight]
      lookback_target_in_range(2) [of latestHeight lb]
    by (simp add: not_less)
  show ?thesis using resolve_examples r1 r2 l1 l2 by blast
qed

text \<open>The general parts of C5 at latest height 1000 (and 20000 for a lookback that
  resolves).\<close>

theorem lookback_resolution_witness:
  "resolve (relative (- 2000)) 1000 = (0, False)
   \<and> (\<exists>h. resolve (relative (- 500)) 1000 = (h, True) \<and> uint h = 500)
   \<and> lookback_target 1000 1 10000 = None
   \<and> (\<exists>h. lookback_target 20000 1 10000 = Some h \<and> sint h = 10000)"
proof -
  have a: "sint (- 2000 :: int64) < 0 \<and> uint (1000 :: uint64) + sint (- 2000 :: int64) < 0"
    by simp
  have b: "sint (- 500 :: int64) < 0 \<and> 0 \<le> uint (1000 :: uint64) + sint (- 500 :: int64)"
    and b': "uint (1000 :: uint64) + sint (- 500 :: int64) = 500"
    by simp_all
  have c: "0 \<le> sint (1000 :: int64) \<and> 0 \<le> sint (10000 :: int64)
      \<and> sint (1000 :: int64) - sint (10000 :: int64) < sint (1 :: int64)"
    by simp
  have d: "0 \<le> sint (20000 :: int64) \<and> 0 \<le> sint (10000 :: int64)
      \<and> sint (1 :: int64) \<le> sint (20000 :: int64) - sint (10000 :: int64)"
    and d': "sint (20000 :: int64) - sint (10000 :: int64) = 10000"
    by simp_all
  have "resolve (relative (- 2000)) 1000 = (0, False)"
    using lookback_resolution [of "- 2000" 1000 0 0 0] a by blast
  moreover have "\<exists>h. resolve (relative (- 500)) 1000 = (h, True) \<and> uint h = 500"
  proof -
    have "\<exists>h. resolve (relative (- 500)) 1000 = (h, True)
            \<and> uint h = uint (1000 :: uint64) + sint (- 500 :: int64)"
      using lookback_resolution [of "- 500" 1000 0 0 0] b by blast
    then show ?thesis unfolding b' .
  qed
  moreover have "lookback_target 1000 1 10000 = None"
    using lookback_resolution [of 0 0 1000 10000 1] c by blast
  moreover have "\<exists>h. lookback_target 20000 1 10000 = Some h \<and> sint h = 10000"
  proof -
    have "\<exists>h. lookback_target 20000 1 10000 = Some h
            \<and> sint h = sint (20000 :: int64) - sint (10000 :: int64)"
      using lookback_resolution [of 0 0 20000 10000 1] d by blast
    then show ?thesis unfolding d' .
  qed
  ultimately show ?thesis by blast
qed

section \<open>Properties of the clamp\<close>



lemma uint_of_nonneg_sint:
  fixes x :: "64 word"
  assumes "0 \<le> sint x"
  shows "uint x = sint x"
proof -
  have "uint x = sint x mod 2 ^ 64" by (simp add: uint_sint take_bit_eq_mod)
  also have "\<dots> = sint x" using assms sint64_range(2) [of x] by simp
  finally show ?thesis .
qed



section \<open>Properties of the float64 rounding\<close>

subsection \<open>Powers of two and binary length\<close>

declare bit_length.simps [simp del]

lemma pow2_pos: "0 < pow2 e"
  by (simp add: pow2_def)

lemma pow2_powi: "pow2 e = 2 powi e"
  by (simp add: pow2_def power_int_def field_simps)

lemma pow2_add: "pow2 (a + b) = pow2 a * pow2 b"
  by (simp add: pow2_powi power_int_add)

lemma pow2_mono: "a \<le> b \<Longrightarrow> pow2 a \<le> pow2 b"
  by (simp add: pow2_powi power_int_increasing)

lemma pow2_nat: "0 \<le> e \<Longrightarrow> pow2 e = of_int (2 ^ nat e)"
  by (simp add: pow2_def)

lemma bit_length_bounds:
  "n < 2 ^ bit_length n" "0 < n \<Longrightarrow> 2 ^ (bit_length n - 1) \<le> n"
proof (induction n rule: bit_length.induct)
  case (1 n)
  {
    case 1
    show ?case
    proof (cases "n = 0")
      case True then show ?thesis by (simp add: bit_length.simps)
    next
      case False
      then have "n div 2 < 2 ^ bit_length (n div 2)" using "1.IH"(1) by simp
      then have "n < 2 * 2 ^ bit_length (n div 2)" by linarith
      then show ?thesis using False by (subst bit_length.simps) simp
    qed
  next
    case 2
    show ?case
    proof (cases "n div 2 = 0")
      case True
      then have "n = 1" using 2 by linarith
      then show ?thesis by (simp add: bit_length.simps)
    next
      case False
      then have pos: "0 < n div 2" by simp
      have "2 ^ (bit_length (n div 2) - 1) \<le> n div 2" using "1.IH"(2) 2 pos by simp
      then have le: "2 * 2 ^ (bit_length (n div 2) - 1) \<le> n" by linarith
      have "0 < bit_length (n div 2)" using pos by (subst bit_length.simps) simp
      then have "2 ^ bit_length (n div 2) = (2::nat) * 2 ^ (bit_length (n div 2) - 1)"
        by (cases "bit_length (n div 2)") simp_all
      then show ?thesis using le 2 by (subst bit_length.simps) simp
    qed
  }
qed


lemma ilog2_bounds:
  assumes "0 < q"
  shows "pow2 (ilog2 q) \<le> q" "q < pow2 (ilog2 q + 1)"
proof -
  obtain a b where ab: "quotient_of q = (a, b)" by (cases "quotient_of q") auto
  have b: "0 < b" using ab by (rule quotient_of_denom_pos)
  have q: "q = of_int a / of_int b" using ab by (rule quotient_of_div)
  have a: "0 < a" using assms b unfolding q by (simp add: zero_less_divide_iff)
  define la where "la = bit_length (nat a)"
  define lb where "lb = bit_length (nat b)"
  define d where "d = int la - int lb"
  have il: "ilog2 q = (if pow2 d \<le> q then d else d - 1)"
    by (simp add: ilog2_def ab Let_def d_def la_def lb_def)
  have la_pos: "0 < la"
    using a unfolding la_def by (subst bit_length.simps) simp
  have lb_pos: "0 < lb"
    using b unfolding lb_def by (subst bit_length.simps) simp
  have a_lo: "(2::rat) ^ (la - 1) \<le> of_int a"
  proof -
    have "2 ^ (la - 1) \<le> nat a" unfolding la_def using a by (intro bit_length_bounds(2)) simp
    then have "int (2 ^ (la - 1)) \<le> a" using a by linarith
    then have "(of_int (int (2 ^ (la - 1))) :: rat) \<le> of_int a" by (simp only: of_int_le_iff)
    then show ?thesis by simp
  qed
  have a_hi: "of_int a < (2::rat) ^ la"
  proof -
    have "nat a < 2 ^ la" unfolding la_def by (rule bit_length_bounds(1))
    then have "a < int (2 ^ la)" using a by linarith
    then have "(of_int a :: rat) < of_int (int (2 ^ la))" by (simp only: of_int_less_iff)
    then show ?thesis by simp
  qed
  have b_lo: "(2::rat) ^ (lb - 1) \<le> of_int b"
  proof -
    have "2 ^ (lb - 1) \<le> nat b" unfolding lb_def using b by (intro bit_length_bounds(2)) simp
    then have "int (2 ^ (lb - 1)) \<le> b" using b by linarith
    then have "(of_int (int (2 ^ (lb - 1))) :: rat) \<le> of_int b" by (simp only: of_int_le_iff)
    then show ?thesis by simp
  qed
  have b_hi: "of_int b < (2::rat) ^ lb"
  proof -
    have "nat b < 2 ^ lb" unfolding lb_def by (rule bit_length_bounds(1))
    then have "b < int (2 ^ lb)" using b by linarith
    then have "(of_int b :: rat) < of_int (int (2 ^ lb))" by (simp only: of_int_less_iff)
    then show ?thesis by simp
  qed
  have bq: "(0::rat) < of_int b" using b by simp
  have p_nat: "pow2 (int n) = 2 ^ n" for n by (simp add: pow2_def)
  have lower: "pow2 (d - 1) \<le> q"
  proof -
    have "pow2 (d - 1) * of_int b \<le> pow2 (d - 1) * 2 ^ lb"
      using b_hi pow2_pos [of "d - 1"] by (intro mult_left_mono) simp_all
    also have "\<dots> = pow2 (d - 1) * pow2 (int lb)" by (simp only: p_nat)
    also have "\<dots> = pow2 (int (la - 1))"
      unfolding pow2_add [symmetric] d_def using la_pos by (intro arg_cong [where f = pow2]) linarith
    also have "\<dots> \<le> of_int a" using a_lo by (simp only: p_nat)
    finally show ?thesis unfolding q using bq by (simp add: pos_le_divide_eq)
  qed
  have upper: "q < pow2 (d + 1)"
  proof -
    have "of_int a < pow2 (int la)" using a_hi by (simp only: p_nat)
    also have "\<dots> = pow2 (d + 1) * pow2 (int (lb - 1))"
      unfolding pow2_add [symmetric] d_def using lb_pos by (intro arg_cong [where f = pow2]) linarith
    also have "\<dots> \<le> pow2 (d + 1) * of_int b"
      using b_lo pow2_pos [of "d + 1"] unfolding p_nat by (intro mult_left_mono) simp_all
    finally show ?thesis unfolding q using bq by (simp add: pos_divide_less_eq)
  qed
  show "pow2 (ilog2 q) \<le> q" unfolding il using lower by simp
  show "q < pow2 (ilog2 q + 1)" unfolding il using upper by (simp add: not_le)
qed

lemma round_to_even_of_int: "round_to_even (of_int k) = k"
  by (simp add: round_to_even_def)

lemma round_to_even_nonneg: "0 \<le> x \<Longrightarrow> 0 \<le> round_to_even x"
  by (auto simp: round_to_even_def Let_def) 

lemma round_to_even_nonpos: "x \<le> 0 \<Longrightarrow> round_to_even x \<le> 0"
proof -
  assume x: "x \<le> 0"
  show ?thesis
  proof (cases "x = of_int \<lfloor>x\<rfloor>")
    case True
    then have "round_to_even x = \<lfloor>x\<rfloor>" using round_to_even_of_int [of "\<lfloor>x\<rfloor>"] by simp
    then show ?thesis using x by simp
  next
    case False
    then have "of_int \<lfloor>x\<rfloor> < x" using of_int_floor_le [of x] by linarith
    then have "(of_int \<lfloor>x\<rfloor> :: rat) < 0" using x by linarith
    then have "\<lfloor>x\<rfloor> < 0" by (simp only: of_int_less_0_iff)
    then have "\<lfloor>x\<rfloor> + 1 \<le> 0" by linarith
    moreover have "round_to_even x \<le> \<lfloor>x\<rfloor> + 1" by (simp add: round_to_even_def Let_def)
    ultimately show ?thesis by linarith
  qed
qed

lemma round_to_even_close: "\<bar>of_int (round_to_even x) - x\<bar> \<le> 1 / 2"
proof -
  define f where "f = \<lfloor>x\<rfloor>"
  define r where "r = x - of_int f"
  have r: "0 \<le> r" "r < 1" unfolding r_def f_def by linarith+
  have x: "x = of_int f + r" by (simp add: r_def)
  have rte: "round_to_even x =
      (if r < 1 / 2 then f else if 1 / 2 < r then f + 1 else if even f then f else f + 1)"
    by (simp add: round_to_even_def Let_def f_def r_def)
  have goal: "\<bar>of_int (round_to_even x) - x\<bar> = \<bar>of_int (round_to_even x) - of_int f - r\<bar>"
    by (simp add: r_def)
  consider "r < 1 / 2" | "1 / 2 < r" | "r = 1 / 2" by linarith
  then show ?thesis
  proof cases
    case 1
    then have "round_to_even x = f" by (simp add: rte)
    then show ?thesis unfolding goal using r 1 by simp
  next
    case 2
    then have "round_to_even x = f + 1" by (simp add: rte)
    then show ?thesis unfolding goal using r 2 by simp
  next
    case 3
    then have "round_to_even x = f \<or> round_to_even x = f + 1" by (simp add: rte)
    then show ?thesis unfolding goal using 3 by auto
  qed
qed


subsection \<open>Rounding to float64\<close>

lemma ulp_pos: "0 < ulp q"
  by (simp add: ulp_def pow2_pos)

lemma round64_nonneg:
  assumes "0 \<le> q"
  shows "0 \<le> round64 q"
proof (cases "q = 0")
  case True
  then show ?thesis by (simp add: round64_def)
next
  case False
  have "0 \<le> q / ulp q" using assms ulp_pos [of q] by simp
  then have "0 \<le> round_to_even (q / ulp q)" by (rule round_to_even_nonneg)
  then show ?thesis using False ulp_pos [of q] by (simp add: round64_def)
qed

lemma round64_nonpos:
  assumes "q \<le> 0"
  shows "round64 q \<le> 0"
proof (cases "q = 0")
  case True
  then show ?thesis by (simp add: round64_def)
next
  case False
  have "q / ulp q \<le> 0" using assms ulp_pos [of q] by (simp add: divide_le_0_iff)
  then have "round_to_even (q / ulp q) \<le> 0" by (rule round_to_even_nonpos)
  then show ?thesis using False ulp_pos [of q] by (simp add: round64_def mult_le_0_iff)
qed

lemma pow2_53: "2 ^ 53 * pow2 k = pow2 (53 + k)"
proof -
  have "pow2 53 = 2 ^ 53" unfolding pow2_def by (simp del: power_numeral)
  then show ?thesis by (simp only: pow2_add)
qed

lemma pow2_less_imp: "pow2 a < pow2 b \<Longrightarrow> a < b"
  using pow2_mono [of b a] by (cases "a < b") simp_all

lemma round64_exact:
  assumes "\<bar>m\<bar> < 2 ^ 53" "- 1074 \<le> k"
  shows "round64 (of_int m * pow2 k) = of_int m * pow2 k"
proof (cases "m = 0")
  case True
  then show ?thesis by (simp add: round64_def)
next
  case False
  define q where "q = (of_int m :: rat) * pow2 k"
  have q0: "q \<noteq> 0" using False pow2_pos [of k] by (simp add: q_def)
  have absq: "\<bar>q\<bar> = of_int \<bar>m\<bar> * pow2 k"
    using pow2_pos [of k] by (simp add: q_def abs_mult)
  define e where "e = ilog2 \<bar>q\<bar>"
  have "pow2 e \<le> \<bar>q\<bar>" unfolding e_def using q0 by (intro ilog2_bounds(1)) simp
  also have "\<bar>q\<bar> < 2 ^ 53 * pow2 k"
  proof -
    have "(of_int \<bar>m\<bar> :: rat) < of_int (2 ^ 53)" using assms(1) by (simp only: of_int_less_iff)
    then have "(of_int \<bar>m\<bar> :: rat) < 2 ^ 53" by simp
    then show ?thesis unfolding absq using pow2_pos [of k] by (intro mult_strict_right_mono)
  qed
  also have "\<dots> = pow2 (53 + k)" by (rule pow2_53)
  finally have "e < 53 + k" by (rule pow2_less_imp)
  then have le: "max e (- 1022) - 52 \<le> k" using assms(2) by simp
  define j where "j = nat (k - (max e (- 1022) - 52))"
  have k: "k = (max e (- 1022) - 52) + int j" using le by (simp add: j_def)
  define U where "U = ulp q"
  have u: "U = pow2 (max e (- 1022) - 52)" by (simp add: U_def ulp_def e_def)
  have U: "0 < U" unfolding U_def by (rule ulp_pos)
  have pj: "pow2 (int j) = 2 ^ j" by (simp add: pow2_def)
  have "pow2 k = pow2 ((max e (- 1022) - 52) + int j)" using k by (rule arg_cong)
  also have "\<dots> = pow2 (max e (- 1022) - 52) * pow2 (int j)" by (rule pow2_add)
  finally have pk: "pow2 k = U * 2 ^ j" unfolding u [symmetric] pj .
  have qU: "q = of_int (m * 2 ^ j) * U" by (simp add: q_def pk)
  have "q / U = of_int (m * 2 ^ j)" unfolding qU using U by simp
  then have "round_to_even (q / U) = m * 2 ^ j" by (simp only: round_to_even_of_int)
  then have "round64 q = of_int (m * 2 ^ j) * U"
    using q0 unfolding round64_def U_def by (simp only: if_False)
  then have "round64 q = q" by (simp only: qU [symmetric])
  then show ?thesis unfolding q_def .
qed

lemma round64_int:
  assumes "\<bar>m\<bar> < 2 ^ 53"
  shows "round64 (of_int m) = of_int m"
  using round64_exact [OF assms, of 0] by (simp add: pow2_def)

lemma fl64_exact:
  assumes "\<bar>m\<bar> < 2 ^ 53" "- 1074 \<le> k" "k \<le> 971"
  shows "fl64 (of_int m * pow2 k) = Some (of_int m * pow2 k)"
proof -
  have "\<bar>(of_int m :: rat) * pow2 k\<bar> = of_int \<bar>m\<bar> * pow2 k"
    using pow2_pos [of k] by (simp add: abs_mult)
  also have "\<dots> \<le> 2 ^ 53 * pow2 k"
  proof -
    have "(of_int \<bar>m\<bar> :: rat) \<le> of_int (2 ^ 53)" using assms(1) by (simp only: of_int_le_iff)
    then have "(of_int \<bar>m\<bar> :: rat) \<le> 2 ^ 53" by simp
    then show ?thesis using pow2_pos [of k] by (intro mult_right_mono) simp_all
  qed
  also have "\<dots> = pow2 (53 + k)" by (rule pow2_53)
  also have "\<dots> \<le> pow2 1024" using assms(3) by (intro pow2_mono) simp
  finally have le: "\<bar>(of_int m :: rat) * pow2 k\<bar> \<le> pow2 1024" .
  have "\<bar>(of_int m :: rat) * pow2 k\<bar> \<noteq> pow2 1024"
  proof
    assume eq: "\<bar>(of_int m :: rat) * pow2 k\<bar> = pow2 1024"
    have "(of_int \<bar>m\<bar> :: rat) < of_int (2 ^ 53)" using assms(1) by (simp only: of_int_less_iff)
    then have "(of_int \<bar>m\<bar> :: rat) < 2 ^ 53" by simp
    then have "of_int \<bar>m\<bar> * pow2 k < 2 ^ 53 * pow2 k"
      using pow2_pos [of k] by (intro mult_strict_right_mono)
    also have "\<dots> = pow2 (53 + k)" by (rule pow2_53)
    also have "\<dots> \<le> pow2 1024" using assms(3) by (intro pow2_mono) simp
    finally show False using eq pow2_pos [of k] by (simp add: abs_mult)
  qed
  with le have "\<bar>(of_int m :: rat) * pow2 k\<bar> < pow2 1024" by simp
  then show ?thesis unfolding fl64_def round64_exact [OF assms(1,2)] by simp
qed

lemma fl64_int:
  assumes "\<bar>m\<bar> < 2 ^ 53"
  shows "fl64 (of_int m) = Some (of_int m)"
  using fl64_exact [OF assms, of 0] by (simp add: pow2_def)

lemma fl64_nonneg:
  assumes "fl64 q = Some r" "0 \<le> q"
  shows "0 \<le> r"
  using assms round64_nonneg [of q] by (simp add: fl64_def split: if_splits)

section \<open>Properties of the predictors\<close>

subsection \<open>Durations\<close>

lemma sint_Second: "sint Second = 1000000000"
  by (simp add: Second_def)

lemma quo_rem_nonneg:
  assumes "0 \<le> a" "0 < b"
  shows "quo a b = a div b" "rem a b = a mod b"
proof -
  show q: "quo a b = a div b"
  proof (cases "a = 0")
    case True
    then show ?thesis by (simp add: quo_def)
  next
    case False
    then have "sgn a = 1" "sgn b = 1" using assms by simp_all
    then show ?thesis using assms by (simp add: quo_def)
  qed
  show "rem a b = a mod b" unfolding rem_def q by (simp add: minus_mult_div_eq_mod)
qed

lemma quo_rem_multiple:
  assumes "0 < b"
  shows "quo (s * b) b = s" "rem (s * b) b = 0"
proof -
  have "\<bar>s * b\<bar> div \<bar>b\<bar> = \<bar>s\<bar>" using assms by (simp add: abs_mult)
  moreover have "sgn (s * b) = sgn s" using assms by (simp add: sgn_mult)
  moreover have "sgn b = 1" using assms by simp
  ultimately show q: "quo (s * b) b = s" by (simp add: quo_def mult_sgn_abs)
  show "rem (s * b) b = 0" unfolding rem_def q by simp
qed

lemma Seconds_nonneg:
  assumes "0 \<le> sint d"
  shows "0 \<le> Seconds d"
proof -
  define sec where "sec = quo (sint d) (sint Second)"
  define nsec where "nsec = rem (sint d) (sint Second)"
  have "0 \<le> sec" "0 \<le> nsec"
    unfolding sec_def nsec_def sint_Second using assms
    by (simp_all add: quo_rem_nonneg pos_imp_zdiv_nonneg_iff)
  then have a: "0 \<le> round64 (of_int sec)" and b: "0 \<le> round64 (of_int nsec)"
    by (simp_all add: round64_nonneg)
  have "0 \<le> round64 (round64 (of_int nsec) / 1000000000)"
    using b by (intro round64_nonneg) simp
  then have "0 \<le> round64 (round64 (of_int sec) + round64 (round64 (of_int nsec) / 1000000000))"
    using a by (intro round64_nonneg) simp
  then show ?thesis by (simp add: Seconds_def Let_def sec_def nsec_def)
qed

lemma round64_zero: "round64 0 = 0"
  by (simp add: round64_def)

lemma Seconds_whole:
  assumes "sint d = s * 1000000000"
  shows "Seconds d = of_int s"
proof -
  have r: "- (2 ^ 63) \<le> s * 1000000000" "s * 1000000000 < 2 ^ 63"
    using sint64_range [of d] unfolding assms by simp_all
  have s: "\<bar>s\<bar> < 2 ^ 53" using r by simp
  have "Seconds d = round64 (round64 (of_int s) + round64 (round64 (of_int 0) / 1000000000))"
    unfolding Seconds_def Let_def sint_Second assms by (simp only: quo_rem_multiple)
  also have "\<dots> = round64 (round64 (of_int s))" by (simp add: round64_zero)
  also have "\<dots> = of_int s" by (simp only: round64_int [OF s])
  finally show ?thesis .
qed

lemma sint_Sub:
  assumes "- (2 ^ 63) \<le> t - u" "t - u < 2 ^ 63"
  shows "sint (Sub t u) = t - u"
proof -
  have "Sub t u = word_of_int (t - u)" using assms by (simp add: Sub_def)
  then show ?thesis using sint_of_int_id [OF assms] by simp
qed

lemma sint_min_max:
  "sint (word_of_int (- (2 ^ 63)) :: 64 word) = - (2 ^ 63)"
  "sint (word_of_int (2 ^ 63 - 1) :: 64 word) = 2 ^ 63 - 1"
  by (simp_all add: sint_of_int_id)

lemma Sub_negative_iff: "sint (Sub t u) < 0 \<longleftrightarrow> t < u"
proof -
  consider "t - u < - (2 ^ 63)" | "2 ^ 63 - 1 < t - u" | "- (2 ^ 63) \<le> t - u" "t - u < 2 ^ 63"
    by linarith
  then show ?thesis
  proof cases
    case 1
    then have "Sub t u = word_of_int (- (2 ^ 63))" by (simp add: Sub_def)
    then show ?thesis using 1 by (simp only: sint_min_max) simp
  next
    case 2
    then have "Sub t u = word_of_int (2 ^ 63 - 1)" by (simp add: Sub_def)
    then show ?thesis using 2 by (simp only: sint_min_max) simp
  next
    case 3
    then show ?thesis by (simp add: sint_Sub)
  qed
qed

subsection \<open>Conversions\<close>

lemma toward_zero_nonneg: "0 \<le> a \<Longrightarrow> toward_zero a = \<lfloor>a\<rfloor>"
  by (simp add: toward_zero_def)

lemma toward_zero_of_int: "toward_zero (of_int k) = k"
  by (simp add: toward_zero_def)

lemma float64_to_int64_nonneg:
  assumes "0 \<le> a" "a < 2 ^ 63"
  shows "\<exists>b. float64_to_int64 (Some a) = Some b \<and> sint b = \<lfloor>a\<rfloor>"
proof -
  have lo: "0 \<le> \<lfloor>a\<rfloor>" using assms(1) by simp
  have "\<lfloor>a\<rfloor> < 2 ^ 63" using assms(2) by (simp add: floor_less_iff)
  then have hi: "\<lfloor>a\<rfloor> < 2 ^ 63" .
  have "float64_to_int64 (Some a) = Some (word_of_int \<lfloor>a\<rfloor>)"
    using lo hi assms(1) by (simp add: float64_to_int64_def toward_zero_def)
  moreover have "sint (word_of_int \<lfloor>a\<rfloor> :: 64 word) = \<lfloor>a\<rfloor>"
    using lo hi by (intro sint_of_int_id) simp_all
  ultimately show ?thesis by blast
qed

lemma fdiv_nonneg:
  assumes "fdiv (Some a) b = Some q" "0 \<le> a" "0 < b"
  shows "0 \<le> q"
proof -
  have "fl64 (a / b) = Some q" using assms(1,3) by (simp add: fdiv_def)
  moreover have "0 \<le> a / b" using assms(2,3) by simp
  ultimately show ?thesis by (rule fl64_nonneg)
qed

lemma pow2_1024_large: "2 ^ 63 \<le> pow2 1024"
proof -
  have "pow2 63 \<le> pow2 1024" by (rule pow2_mono) simp
  then show ?thesis by (simp add: pow2_def)
qed

lemma fl64_small:
  assumes "0 \<le> q" "round64 q < 2 ^ 63"
  shows "fl64 q = Some (round64 q)"
proof -
  have "0 \<le> round64 q" using assms(1) by (rule round64_nonneg)
  then have "\<bar>round64 q\<bar> < pow2 1024" using assms(2) pow2_1024_large by linarith
  then show ?thesis by (simp add: fl64_def)
qed

lemma fdiv_small:
  assumes "0 \<le> a" "0 < b" "round64 (a / b) < 2 ^ 63"
  shows "fdiv (Some a) b = Some (round64 (a / b))" "0 \<le> round64 (a / b)"
proof -
  have n: "0 \<le> a / b" using assms(1,2) by simp
  then show "0 \<le> round64 (a / b)" by (rule round64_nonneg)
  have "fl64 (a / b) = Some (round64 (a / b))" using n assms(3) by (rule fl64_small)
  then show "fdiv (Some a) b = Some (round64 (a / b))" using assms(2) by (simp add: fdiv_def)
qed

subsection \<open>time.Unix\<close>

lemma sint_unixToInternal: "sint unixToInternal = 62135596800"
  by (simp add: unixToInternal_def)

lemma Unix_in_range:
  assumes "sint sec + 62135596800 < 2 ^ 63"
  shows "Unix sec = sint sec * 1000000000"
proof -
  have "sint (sec + unixToInternal) = sint sec + sint unixToInternal"
  proof (rule sint_add_in_range)
    show "sint sec + sint unixToInternal < 2 ^ 63"
      unfolding sint_unixToInternal using assms .
    have "- (2 ^ 63) \<le> sint sec" by (rule sint64_range)
    then show "- (2 ^ 63) \<le> sint sec + sint unixToInternal"
      unfolding sint_unixToInternal by simp
  qed
  then show ?thesis by (simp add: Unix_def)
qed

lemma Unix_new_year: "Unix 1735689600 = 1735689600000000000"
proof -
  have "sint (1735689600 :: int64) + 62135596800 < 2 ^ 63" by simp
  then have "Unix 1735689600 = sint (1735689600 :: int64) * 1000000000" by (rule Unix_in_range)
  then show ?thesis by simp
qed

subsection \<open>The floor predictor\<close>

lemma hf_predict_past:
  assumes "targetTime < latestTime"
  shows "hf_predict targetTime avgBlockTime latestHeight latestTime = [TargetInPast targetTime]"
  using assms by (simp add: hf_predict_def Let_def Sub_negative_iff)

lemma hf_predict_future:
  assumes "latestTime \<le> targetTime" "0 < avgBlockTime"
    and "q = round64 (Seconds (Sub targetTime latestTime) / avgBlockTime)"
    and "q < 2 ^ 63"
  shows "\<exists>blocksToAdd.
           hf_predict targetTime avgBlockTime latestHeight latestTime
             = [FuturePrediction targetTime avgBlockTime (Sub targetTime latestTime)
                  (Some blocksToAdd) (Some (latestHeight + blocksToAdd))]
           \<and> sint blocksToAdd = \<lfloor>q\<rfloor>"
proof -
  have d: "\<not> sint (Sub targetTime latestTime) < 0"
    using assms(1) by (simp add: Sub_negative_iff)
  then have s: "0 \<le> Seconds (Sub targetTime latestTime)"
    by (intro Seconds_nonneg) simp
  have small: "round64 (Seconds (Sub targetTime latestTime) / avgBlockTime) < 2 ^ 63"
    using assms(3,4) by simp
  have f: "fdiv (Some (Seconds (Sub targetTime latestTime))) avgBlockTime = Some q"
    and q: "0 \<le> q"
    unfolding assms(3) using fdiv_small [OF s assms(2) small] by simp_all
  obtain b where b: "float64_to_int64 (Some q) = Some b" "sint b = \<lfloor>q\<rfloor>"
    using float64_to_int64_nonneg [OF q assms(4)] by blast
  have "hf_predict targetTime avgBlockTime latestHeight latestTime
          = [FuturePrediction targetTime avgBlockTime (Sub targetTime latestTime)
               (Some b) (Some (latestHeight + b))]"
    unfolding hf_predict_def Let_def f b(1) using d by simp
  with b(2) show ?thesis by blast
qed

subsection \<open>The rounding predictor\<close>

lemma math_Round_nonneg:
  assumes "0 \<le> q"
  shows "math_Round (Some q) = Some (of_int \<lfloor>q + 1 / 2\<rfloor>)"
  using assms by (simp add: math_Round_def)

lemma float64_to_int64_of_int:
  assumes "- (2 ^ 63) \<le> k" "k < 2 ^ 63"
  shows "float64_to_int64 (Some (of_int k)) = Some (word_of_int k)"
  using assms by (simp add: float64_to_int64_def toward_zero_of_int)

lemma absInt64_nonneg: "0 \<le> sint v \<Longrightarrow> absInt64 v = v"
  by (simp add: absInt64_def)

lemma predicted_height_sum:
  assumes "0 \<le> sint b" "uint n + sint b < 2 ^ 63"
  shows "uint (predicted_height n b) = uint n + sint b"
proof -
  have small: "uint n < 2 ^ 63" using assms by simp
  have n: "sint n = uint n" using small by (rule sint_eq_uint_small)
  have s: "sint (n + b) = sint n + sint b"
  proof (rule sint_add_in_range)
    have p: "0 \<le> uint n" "(0::int) < 2 ^ 63" by simp_all
    then show "- (2 ^ 63) \<le> sint n + sint b" unfolding n using assms(1) by linarith
    show "sint n + sint b < 2 ^ 63" unfolding n using assms(2) .
  qed
  have nn: "0 \<le> sint (n + b)" unfolding s n using assms(1) by simp
  then have "predicted_height n b = n + b" by (simp add: predicted_height_def Let_def)
  moreover have "uint (n + b) = sint (n + b)" using nn by (rule uint_of_nonneg_sint)
  ultimately show ?thesis unfolding s n by simp
qed

lemma bor_hf_main_run:
  assumes "blockTimestamp n = Inr curTS"
  shows "bor_hf_main (Inr n) blockTimestamp (Inr target) avg =
           \<lparr>printed =
              [CurrentBlockLine n (Unix curTS),
               TargetTimeLine target,
               AvgBlockLine avg,
               DeltaTimeLine (if sint (Sub target (Unix curTS)) < 0 then ''-'' else ''+'')
                 (Sub target (Unix curTS)) (Seconds (Sub target (Unix curTS))),
               EstimatedBlocksLine (if sint (Sub target (Unix curTS)) < 0 then ''-'' else ''+'')
                 (map_option absInt64
                    (float64_to_int64
                       (math_Round (fdiv (Some (Seconds (Sub target (Unix curTS)))) avg))))
                 (fdiv (Some (Seconds (Sub target (Unix curTS)))) avg),
               PredictedHeightLine
                 (map_option (predicted_height n)
                    (float64_to_int64
                       (math_Round (fdiv (Some (Seconds (Sub target (Unix curTS)))) avg))))],
            failure = None\<rparr>"
  unfolding bor_hf_main_def Let_def using assms by simp

lemma bor_hf_future:
  assumes "latestTime \<le> targetTime" "0 < avg"
    and "q = round64 (Seconds (Sub targetTime latestTime) / avg)"
    and "q + 1 / 2 < 2 ^ 63" "blockTimestamp n = Inr curTS" "Unix curTS = latestTime"
  shows "\<exists>blocksRounded.
           bor_hf_main (Inr n) blockTimestamp (Inr targetTime) avg =
             \<lparr>printed =
                [CurrentBlockLine n latestTime,
                 TargetTimeLine targetTime,
                 AvgBlockLine avg,
                 DeltaTimeLine ''+'' (Sub targetTime latestTime)
                   (Seconds (Sub targetTime latestTime)),
                 EstimatedBlocksLine ''+'' (Some blocksRounded) (Some q),
                 PredictedHeightLine (Some (predicted_height n blocksRounded))],
              failure = None\<rparr>
           \<and> sint blocksRounded = \<lfloor>q + 1 / 2\<rfloor>
           \<and> (uint n + \<lfloor>q + 1 / 2\<rfloor> < 2 ^ 63 \<longrightarrow>
                uint (predicted_height n blocksRounded) = uint n + \<lfloor>q + 1 / 2\<rfloor>)"
proof -
  define k where "k = \<lfloor>q + 1 / 2\<rfloor>"
  have d: "\<not> sint (Sub targetTime latestTime) < 0"
    using assms(1) by (simp add: Sub_negative_iff)
  then have s: "0 \<le> Seconds (Sub targetTime latestTime)"
    by (intro Seconds_nonneg) simp
  have small: "round64 (Seconds (Sub targetTime latestTime) / avg) < 2 ^ 63"
    using assms(3,4) by simp
  have f: "fdiv (Some (Seconds (Sub targetTime latestTime))) avg = Some q"
    and q: "0 \<le> q"
    unfolding assms(3) using fdiv_small [OF s assms(2) small] by simp_all
  have k0: "0 \<le> k" unfolding k_def using q by simp
  have k1: "k < 2 ^ 63" unfolding k_def using assms(4) by (simp add: floor_less_iff)
  have k0': "- (2 ^ 63) \<le> k" using k0 by simp
  have r: "math_Round (Some q) = Some (of_int k)"
    unfolding k_def using q by (rule math_Round_nonneg)
  have c: "float64_to_int64 (math_Round (Some q)) = Some (word_of_int k)"
    unfolding r using k0' k1 by (rule float64_to_int64_of_int)
  define b :: int64 where "b = word_of_int k"
  have sb: "sint b = k" unfolding b_def using k0' k1 by (rule sint_of_int_id)
  have ab: "absInt64 b = b" using sb k0 by (simp add: absInt64_nonneg)
  have run: "bor_hf_main (Inr n) blockTimestamp (Inr targetTime) avg =
             \<lparr>printed =
                [CurrentBlockLine n latestTime,
                 TargetTimeLine targetTime,
                 AvgBlockLine avg,
                 DeltaTimeLine ''+'' (Sub targetTime latestTime)
                   (Seconds (Sub targetTime latestTime)),
                 EstimatedBlocksLine ''+'' (Some b) (Some q),
                 PredictedHeightLine (Some (predicted_height n b))],
              failure = None\<rparr>"
    using bor_hf_main_run [where blockTimestamp = blockTimestamp and n = n
        and curTS = curTS and target = targetTime and avg = avg, OF assms(5)] d
    unfolding assms(6) f c b_def [symmetric] by (simp add: ab)
  have "uint n + k < 2 ^ 63 \<longrightarrow> uint (predicted_height n b) = uint n + k"
    using predicted_height_sum [of b n] sb k0 by simp
  with run sb show ?thesis unfolding k_def by blast
qed

subsection \<open>Quotients beyond the int64 range\<close>

lemma float64_to_int64_large:
  assumes "2 ^ 63 \<le> a"
  shows "float64_to_int64 (Some a) = None"
proof -
  have "(of_int (2 ^ 63) :: rat) \<le> a" using assms by simp
  then have f: "2 ^ 63 \<le> \<lfloor>a\<rfloor>" by (simp only: le_floor_iff)
  have "(0 :: rat) \<le> 2 ^ 63" by simp
  then have "0 \<le> a" using assms by linarith
  then have "toward_zero a = \<lfloor>a\<rfloor>" by (rule toward_zero_nonneg)
  then show ?thesis using f by (simp add: float64_to_int64_def)
qed

lemma hf_predict_large:
  assumes "latestTime \<le> targetTime" "0 < avgBlockTime"
    and "2 ^ 63 \<le> round64 (Seconds (Sub targetTime latestTime) / avgBlockTime)"
  shows "hf_predict targetTime avgBlockTime latestHeight latestTime
           = [FuturePrediction targetTime avgBlockTime (Sub targetTime latestTime) None None]"
proof -
  have d: "\<not> sint (Sub targetTime latestTime) < 0"
    using assms(1) by (simp add: Sub_negative_iff)
  have "float64_to_int64 (fdiv (Some (Seconds (Sub targetTime latestTime))) avgBlockTime) = None"
    using assms(2) float64_to_int64_large [OF assms(3)]
    by (simp add: fdiv_def fl64_def float64_to_int64_def)
  then show ?thesis unfolding hf_predict_def Let_def using d by simp
qed

lemma bor_hf_large:
  assumes "latestTime \<le> targetTime" "0 < avg"
    and "2 ^ 63 \<le> round64 (Seconds (Sub targetTime latestTime) / avg) + 1 / 2"
    and "blockTimestamp n = Inr curTS" "Unix curTS = latestTime"
  shows "bor_hf_main (Inr n) blockTimestamp (Inr targetTime) avg =
           \<lparr>printed =
              [CurrentBlockLine n latestTime,
               TargetTimeLine targetTime,
               AvgBlockLine avg,
               DeltaTimeLine ''+'' (Sub targetTime latestTime)
                 (Seconds (Sub targetTime latestTime)),
               EstimatedBlocksLine ''+'' None
                 (fdiv (Some (Seconds (Sub targetTime latestTime))) avg),
               PredictedHeightLine None],
            failure = None\<rparr>"
proof -
  define q where "q = round64 (Seconds (Sub targetTime latestTime) / avg)"
  have d: "\<not> sint (Sub targetTime latestTime) < 0"
    using assms(1) by (simp add: Sub_negative_iff)
  then have "0 \<le> Seconds (Sub targetTime latestTime)"
    by (intro Seconds_nonneg) simp
  then have "0 \<le> Seconds (Sub targetTime latestTime) / avg" using assms(2) by simp
  then have q: "0 \<le> q" unfolding q_def by (rule round64_nonneg)
  have "(of_int (2 ^ 63) :: rat) \<le> q + 1 / 2" using assms(3) unfolding q_def by simp
  then have "2 ^ 63 \<le> \<lfloor>q + 1 / 2\<rfloor>" by (simp only: le_floor_iff)
  then have "(of_int (2 ^ 63) :: rat) \<le> of_int \<lfloor>q + 1 / 2\<rfloor>" by (simp only: of_int_le_iff)
  then have "(2 ^ 63 :: rat) \<le> of_int \<lfloor>q + 1 / 2\<rfloor>" by simp
  then have "float64_to_int64 (Some (of_int \<lfloor>q + 1 / 2\<rfloor>)) = None"
    by (rule float64_to_int64_large)
  then have "float64_to_int64 (math_Round (Some q)) = None"
    unfolding math_Round_nonneg [OF q] .
  then have c: "float64_to_int64
      (math_Round (fdiv (Some (Seconds (Sub targetTime latestTime))) avg)) = None"
    using assms(2) unfolding q_def
    by (simp add: fdiv_def fl64_def math_Round_def float64_to_int64_def)
  show ?thesis
    using bor_hf_main_run [where blockTimestamp = blockTimestamp and n = n
        and curTS = curTS and target = targetTime and avg = avg, OF assms(4)] d
    unfolding assms(5) c by simp
qed

subsection \<open>One day at two seconds a block\<close>

lemma day_ahead:
  "Sub 1735776000000000000 1735689600000000000 = 86400000000000"
  "Seconds 86400000000000 = 86400"
  "round64 (86400 / 2) = 43200"
proof -
  show "Sub 1735776000000000000 1735689600000000000 = 86400000000000"
    by (simp add: Sub_def)
  have "sint (86400000000000 :: duration) = 86400 * 1000000000" by simp
  then have "Seconds 86400000000000 = of_int 86400" by (rule Seconds_whole)
  then show "Seconds 86400000000000 = 86400" by simp
  have "round64 (of_int 43200) = of_int 43200" by (rule round64_int) simp
  then show "round64 (86400 / 2) = 43200" by simp
qed

lemma day_behind:
  "Sub 1735603200000000000 1735689600000000000 = - 86400000000000"
  "Seconds (- 86400000000000) = - 86400"
  "fdiv (Some (- 86400)) 2 = Some (- 43200)"
proof -
  show "Sub 1735603200000000000 1735689600000000000 = - 86400000000000"
    by (simp add: Sub_def)
  have "sint (- 86400000000000 :: duration) = (- 86400) * 1000000000" by simp
  then have "Seconds (- 86400000000000) = of_int (- 86400)" by (rule Seconds_whole)
  then show "Seconds (- 86400000000000) = - 86400" by simp
  have "fl64 (of_int (- 43200)) = Some (of_int (- 43200))" by (rule fl64_int) simp
  then have "fl64 (- 43200) = Some (- 43200)" by simp
  moreover have "(- 86400 :: rat) / 2 = - 43200" by simp
  ultimately show "fdiv (Some (- 86400)) 2 = Some (- 43200)" by (simp add: fdiv_def)
qed

lemma bor_hf_past_example:
  "bor_hf_main (Inr 1000) new_year_2025 (Inr 1735603200000000000) 2 =
     \<lparr>printed =
        [CurrentBlockLine 1000 1735689600000000000,
         TargetTimeLine 1735603200000000000,
         AvgBlockLine 2,
         DeltaTimeLine ''-'' (- 86400000000000) (- 86400),
         EstimatedBlocksLine ''-'' (Some 43200) (Some (- 43200)),
         PredictedHeightLine (Some 0)],
      failure = None\<rparr>"
proof -
  have ts: "new_year_2025 1000 = Inr 1735689600" by (simp add: new_year_2025_def)
  have "\<lceil>- 43200 - 1 / 2 :: rat\<rceil> = - 43200" by (simp add: ceiling_unique)
  then have "math_Round (Some (- 43200)) = Some (of_int (- 43200))"
    by (simp add: math_Round_def del: ceiling_diff_numeral)
  moreover have "float64_to_int64 (Some (of_int (- 43200))) = Some (word_of_int (- 43200))"
    by (rule float64_to_int64_of_int) simp_all
  ultimately have c: "float64_to_int64 (math_Round (Some (- 43200))) = Some (- 43200)"
    by simp
  have a: "absInt64 (- 43200) = 43200" by (simp add: absInt64_def)
  have p: "predicted_height 1000 (- 43200) = 0" by (simp add: predicted_height_def)
  have s: "sint (- 86400000000000 :: duration) < 0" by simp
  show ?thesis
    using bor_hf_main_run [where blockTimestamp = new_year_2025 and n = 1000
        and curTS = 1735689600 and target = 1735603200000000000 and avg = 2, OF ts]
    unfolding Unix_new_year day_behind c using s by (simp add: a p)
qed

subsection \<open>Two seconds ahead at the greatest height\<close>

lemma two_seconds_ahead:
  "Sub 1735689602000000000 1735689600000000000 = 2000000000"
  "Seconds 2000000000 = 2"
  "fdiv (Some 2) 2 = Some 1"
  "float64_to_int64 (Some 1) = Some 1"
  "float64_to_int64 (math_Round (Some 1)) = Some 1"
proof -
  show "Sub 1735689602000000000 1735689600000000000 = 2000000000"
    by (simp add: Sub_def)
  have "sint (2000000000 :: duration) = 2 * 1000000000" by simp
  then have "Seconds 2000000000 = of_int 2" by (rule Seconds_whole)
  then show "Seconds 2000000000 = 2" by simp
  have "fl64 (of_int 1) = Some (of_int 1)" by (rule fl64_int) simp
  then show "fdiv (Some 2) 2 = Some 1" by (simp add: fdiv_def)
  have c: "float64_to_int64 (Some (of_int 1)) = Some (word_of_int 1)"
    by (rule float64_to_int64_of_int) simp_all
  then show "float64_to_int64 (Some 1) = Some 1" by simp
  have "\<lfloor>1 + 1 / 2 :: rat\<rfloor> = 1" by (simp add: floor_unique)
  then have "math_Round (Some 1) = Some (of_int 1)" by (simp add: math_Round_def)
  then show "float64_to_int64 (math_Round (Some 1)) = Some 1" using c by simp
qed

lemma hf_predict_wraps:
  "hf_predict 1735689602000000000 2 9223372036854775807 1735689600000000000
     = [FuturePrediction 1735689602000000000 2 2000000000 (Some 1)
          (Some (- 9223372036854775808))]"
proof -
  have s: "\<not> sint (2000000000 :: duration) < 0" by simp
  have w: "(9223372036854775807 :: int64) + 1 = - 9223372036854775808" by simp
  show ?thesis
    unfolding hf_predict_def Let_def two_seconds_ahead using s by (simp add: w)
qed

lemma bor_hf_clamps_at_limit:
  "bor_hf_main (Inr 9223372036854775807) new_year_2025 (Inr 1735689602000000000) 2 =
     \<lparr>printed =
        [CurrentBlockLine 9223372036854775807 1735689600000000000,
         TargetTimeLine 1735689602000000000,
         AvgBlockLine 2,
         DeltaTimeLine ''+'' 2000000000 2,
         EstimatedBlocksLine ''+'' (Some 1) (Some 1),
         PredictedHeightLine (Some 0)],
      failure = None\<rparr>"
proof -
  have ts: "new_year_2025 9223372036854775807 = Inr 1735689600" by (simp add: new_year_2025_def)
  have a: "absInt64 1 = 1" by (simp add: absInt64_def)
  have p: "predicted_height 9223372036854775807 1 = 0" by (simp add: predicted_height_def)
  have s: "\<not> sint (2000000000 :: duration) < 0" by simp
  show ?thesis
    using bor_hf_main_run [where blockTimestamp = new_year_2025 and n = 9223372036854775807
        and curTS = 1735689600 and target = 1735689602000000000 and avg = 2, OF ts]
    unfolding Unix_new_year two_seconds_ahead using s by (simp add: a p)
qed

lemma hf_predict_tiny_average:
  "hf_predict 1735776000000000000 (1 / 2 ^ 50) 1000 1735689600000000000
     = [FuturePrediction 1735776000000000000 (1 / 2 ^ 50) 86400000000000 None None]"
proof -
  have h1: "(1735689600000000000 :: time) \<le> 1735776000000000000" by simp
  have h2: "(0 :: float64) < 1 / 2 ^ 50" by simp
  have "round64 (of_int 675 * pow2 57) = of_int 675 * pow2 57"
    by (rule round64_exact) simp_all
  moreover have "(86400 :: rat) / (1 / 2 ^ 50) = of_int 675 * pow2 57"
    by (simp add: pow2_def)
  ultimately have "round64 (86400 / (1 / 2 ^ 50)) = of_int 675 * pow2 57" by simp
  then have "2 ^ 63 \<le> round64 (86400 / (1 / 2 ^ 50))" by (simp add: pow2_def)
  then have h3: "2 ^ 63 \<le> round64
      (Seconds (Sub 1735776000000000000 1735689600000000000) / (1 / 2 ^ 50))"
    unfolding day_ahead .
  show ?thesis
    using hf_predict_large [OF h1 h2 h3, of 1000] unfolding day_ahead .
qed

text \<open>
  \<open>time.Unix\<close> at the greatest \<open>int64\<close>: the sum with \<open>unixToInternal\<close> wraps around and
  the instant lies 9223372036854775809 seconds before the epoch.
\<close>

lemma Unix_wraps: "Unix 9223372036854775807 = - 9223372036854775809 * 1000000000"
  by (simp add: Unix_def unixToInternal_def)

text \<open>
  Claim C7 as stated says that \<open>blocksToAdd\<close> is the floor of the quotient and the
  predicted height is \<open>H + blocksToAdd\<close>, for every latest height \<open>H\<close> and every positive
  average block time. At the greatest \<open>int64\<close> height, two seconds before the target at
  two seconds a block, one block is added: the Heimdall predictor prints the height
  \<open>-9223372036854775808\<close>, the sum wrapped around, and the Bor predictor prints the
  height 0, the wrapped sum clamped; neither is \<open>H + 1\<close>. And one day before the target
  with an average block time of \<open>2^-50\<close> seconds the quotient is \<open>86400 * 2^50\<close>, which
  is no \<open>int64\<close>: whatever the conversion gives for \<open>blocksToAdd\<close>, it is not the floor
  of the quotient.
\<close>

theorem prediction_wraps_at_greatest_height:
  "hf_predict 1735689602000000000 2 9223372036854775807 1735689600000000000
     = [FuturePrediction 1735689602000000000 2 2000000000 (Some 1)
          (Some (- 9223372036854775808))]
   \<and> sint (- 9223372036854775808 :: int64) \<noteq> sint (9223372036854775807 :: int64) + 1
   \<and> bor_hf_main (Inr 9223372036854775807) new_year_2025 (Inr 1735689602000000000) 2 =
       \<lparr>printed =
          [CurrentBlockLine 9223372036854775807 1735689600000000000,
           TargetTimeLine 1735689602000000000,
           AvgBlockLine 2,
           DeltaTimeLine ''+'' 2000000000 2,
           EstimatedBlocksLine ''+'' (Some 1) (Some 1),
           PredictedHeightLine (Some 0)],
        failure = None\<rparr>
   \<and> uint (0 :: uint64) \<noteq> uint (9223372036854775807 :: uint64) + 1
   \<and> hf_predict 1735776000000000000 (1 / 2 ^ 50) 1000 1735689600000000000
     = [FuturePrediction 1735776000000000000 (1 / 2 ^ 50) 86400000000000 None None]"
  using hf_predict_wraps bor_hf_clamps_at_limit hf_predict_tiny_average by simp

text \<open>
  Claim C7, as the code has it. Let the target time be no earlier than the latest block
  time, the average block time positive, \<open>delta\<close> the difference of the two times as a
  \<open>Duration\<close> (saturated at the greatest \<open>Duration\<close>, about 292 years), and \<open>q\<close> the
  \<open>float64\<close> quotient of \<open>delta.Seconds()\<close> by the average block time. If \<open>q\<close> is below
  \<open>2^63\<close>, the Heimdall predictor prints \<open>blocksToAdd\<close> with value \<open>\<lfloor>q\<rfloor>\<close> and the
  predicted height \<open>latestHeight + blocksToAdd\<close>, an \<open>int64\<close> sum, which is the sum of the
  numbers if that is below \<open>2^63\<close>. If \<open>q + 1/2\<close> is below \<open>2^63\<close>, the Bor predictor,
  whose latest block time is \<open>time.Unix\<close> of the block's timestamp, prints the block delta
  with value \<open>q\<close> rounded to the nearest integer and the predicted height, the clamp of
  the \<open>int64\<close> sum \<open>n + blocksRounded\<close>, which is the sum of the numbers if that is below
  \<open>2^63\<close>. From \<open>2^63\<close> on, the floor or the nearest integer of \<open>q\<close> is no \<open>int64\<close> and
  the block delta and the predicted height are outside the fragment.
\<close>

theorem future_height_prediction:
  assumes "latestTime \<le> targetTime" "0 < avgBlockTime"
    and "q = round64 (Seconds (Sub targetTime latestTime) / avgBlockTime)"
  shows
    "(q < 2 ^ 63 \<longrightarrow>
        (\<exists>blocksToAdd.
           hf_predict targetTime avgBlockTime latestHeight latestTime
             = [FuturePrediction targetTime avgBlockTime (Sub targetTime latestTime)
                  (Some blocksToAdd) (Some (latestHeight + blocksToAdd))]
           \<and> sint blocksToAdd = \<lfloor>q\<rfloor>
           \<and> (sint latestHeight + \<lfloor>q\<rfloor> < 2 ^ 63 \<longrightarrow>
                sint (latestHeight + blocksToAdd) = sint latestHeight + \<lfloor>q\<rfloor>)))
   \<and> (2 ^ 63 \<le> q \<longrightarrow>
        hf_predict targetTime avgBlockTime latestHeight latestTime
          = [FuturePrediction targetTime avgBlockTime (Sub targetTime latestTime) None None])
   \<and> (q + 1 / 2 < 2 ^ 63 \<and> blockTimestamp n = Inr curTS \<and> Unix curTS = latestTime \<longrightarrow>
        (\<exists>blocksRounded.
           bor_hf_main (Inr n) blockTimestamp (Inr targetTime) avgBlockTime =
             \<lparr>printed =
                [CurrentBlockLine n latestTime,
                 TargetTimeLine targetTime,
                 AvgBlockLine avgBlockTime,
                 DeltaTimeLine ''+'' (Sub targetTime latestTime)
                   (Seconds (Sub targetTime latestTime)),
                 EstimatedBlocksLine ''+'' (Some blocksRounded) (Some q),
                 PredictedHeightLine (Some (predicted_height n blocksRounded))],
              failure = None\<rparr>
           \<and> sint blocksRounded = \<lfloor>q + 1 / 2\<rfloor>
           \<and> (uint n + \<lfloor>q + 1 / 2\<rfloor> < 2 ^ 63 \<longrightarrow>
                uint (predicted_height n blocksRounded) = uint n + \<lfloor>q + 1 / 2\<rfloor>)))
   \<and> (2 ^ 63 \<le> q + 1 / 2 \<and> blockTimestamp n = Inr curTS \<and> Unix curTS = latestTime \<longrightarrow>
        bor_hf_main (Inr n) blockTimestamp (Inr targetTime) avgBlockTime =
          \<lparr>printed =
             [CurrentBlockLine n latestTime,
              TargetTimeLine targetTime,
              AvgBlockLine avgBlockTime,
              DeltaTimeLine ''+'' (Sub targetTime latestTime)
                (Seconds (Sub targetTime latestTime)),
              EstimatedBlocksLine ''+'' None
                (fdiv (Some (Seconds (Sub targetTime latestTime))) avgBlockTime),
              PredictedHeightLine None],
           failure = None\<rparr>)"
proof (intro conjI impI)
  assume small: "q < 2 ^ 63"
  obtain b where b:
    "hf_predict targetTime avgBlockTime latestHeight latestTime
       = [FuturePrediction targetTime avgBlockTime (Sub targetTime latestTime)
            (Some b) (Some (latestHeight + b))]"
    "sint b = \<lfloor>q\<rfloor>"
    using hf_predict_future [OF assms small] by blast
  have d: "\<not> sint (Sub targetTime latestTime) < 0"
    using assms(1) by (simp add: Sub_negative_iff)
  then have "0 \<le> Seconds (Sub targetTime latestTime)"
    by (intro Seconds_nonneg) simp
  then have "0 \<le> Seconds (Sub targetTime latestTime) / avgBlockTime"
    using assms(2) by simp
  then have "0 \<le> q" unfolding assms(3) by (rule round64_nonneg)
  then have f: "0 \<le> \<lfloor>q\<rfloor>" by simp
  have "sint latestHeight + \<lfloor>q\<rfloor> < 2 ^ 63 \<longrightarrow>
          sint (latestHeight + b) = sint latestHeight + \<lfloor>q\<rfloor>"
  proof
    assume hi: "sint latestHeight + \<lfloor>q\<rfloor> < 2 ^ 63"
    have "- (2 ^ 63) \<le> sint latestHeight" by (rule sint64_range)
    then have lo: "- (2 ^ 63) \<le> sint latestHeight + sint b" unfolding b(2) using f by linarith
    have "sint latestHeight + sint b < 2 ^ 63" unfolding b(2) using hi .
    with lo have "sint (latestHeight + b) = sint latestHeight + sint b"
      by (rule sint_add_in_range)
    then show "sint (latestHeight + b) = sint latestHeight + \<lfloor>q\<rfloor>" unfolding b(2) .
  qed
  with b show "\<exists>blocksToAdd.
           hf_predict targetTime avgBlockTime latestHeight latestTime
             = [FuturePrediction targetTime avgBlockTime (Sub targetTime latestTime)
                  (Some blocksToAdd) (Some (latestHeight + blocksToAdd))]
           \<and> sint blocksToAdd = \<lfloor>q\<rfloor>
           \<and> (sint latestHeight + \<lfloor>q\<rfloor> < 2 ^ 63 \<longrightarrow>
                sint (latestHeight + blocksToAdd) = sint latestHeight + \<lfloor>q\<rfloor>)"
    by blast
next
  assume "2 ^ 63 \<le> q"
  then have "2 ^ 63 \<le> round64 (Seconds (Sub targetTime latestTime) / avgBlockTime)"
    unfolding assms(3) .
  with assms(1,2) show "hf_predict targetTime avgBlockTime latestHeight latestTime
          = [FuturePrediction targetTime avgBlockTime (Sub targetTime latestTime) None None]"
    by (rule hf_predict_large)
next
  assume "q + 1 / 2 < 2 ^ 63 \<and> blockTimestamp n = Inr curTS \<and> Unix curTS = latestTime"
  then have h: "q + 1 / 2 < 2 ^ 63" "blockTimestamp n = Inr curTS" "Unix curTS = latestTime"
    by simp_all
  show "\<exists>blocksRounded.
           bor_hf_main (Inr n) blockTimestamp (Inr targetTime) avgBlockTime =
             \<lparr>printed =
                [CurrentBlockLine n latestTime,
                 TargetTimeLine targetTime,
                 AvgBlockLine avgBlockTime,
                 DeltaTimeLine ''+'' (Sub targetTime latestTime)
                   (Seconds (Sub targetTime latestTime)),
                 EstimatedBlocksLine ''+'' (Some blocksRounded) (Some q),
                 PredictedHeightLine (Some (predicted_height n blocksRounded))],
              failure = None\<rparr>
           \<and> sint blocksRounded = \<lfloor>q + 1 / 2\<rfloor>
           \<and> (uint n + \<lfloor>q + 1 / 2\<rfloor> < 2 ^ 63 \<longrightarrow>
                uint (predicted_height n blocksRounded) = uint n + \<lfloor>q + 1 / 2\<rfloor>)"
    using assms h by (rule bor_hf_future)
next
  assume "2 ^ 63 \<le> q + 1 / 2 \<and> blockTimestamp n = Inr curTS \<and> Unix curTS = latestTime"
  then have h: "2 ^ 63 \<le> round64 (Seconds (Sub targetTime latestTime) / avgBlockTime) + 1 / 2"
    "blockTimestamp n = Inr curTS" "Unix curTS = latestTime"
    unfolding assms(3) by simp_all
  show "bor_hf_main (Inr n) blockTimestamp (Inr targetTime) avgBlockTime =
          \<lparr>printed =
             [CurrentBlockLine n latestTime,
              TargetTimeLine targetTime,
              AvgBlockLine avgBlockTime,
              DeltaTimeLine ''+'' (Sub targetTime latestTime)
                (Seconds (Sub targetTime latestTime)),
              EstimatedBlocksLine ''+'' None
                (fdiv (Some (Seconds (Sub targetTime latestTime))) avgBlockTime),
              PredictedHeightLine None],
           failure = None\<rparr>"
    using assms(1,2) h by (rule bor_hf_large)
qed

text \<open>
  The scenario of C7: latest height 1000 at \<open>2025-01-01T00:00:00Z\<close>, target one day
  later, two seconds a block. Both predictors add 43200 blocks and predict height 44200.
\<close>

theorem future_height_prediction_witness:
  "hf_predict 1735776000000000000 2 1000 1735689600000000000
     = [FuturePrediction 1735776000000000000 2 86400000000000 (Some 43200) (Some 44200)]
   \<and> (\<exists>blocksRounded.
         bor_hf_main (Inr 1000) new_year_2025 (Inr 1735776000000000000) 2 =
           \<lparr>printed =
              [CurrentBlockLine 1000 1735689600000000000,
               TargetTimeLine 1735776000000000000,
               AvgBlockLine 2,
               DeltaTimeLine ''+'' 86400000000000 86400,
               EstimatedBlocksLine ''+'' (Some blocksRounded) (Some 43200),
               PredictedHeightLine (Some (predicted_height 1000 blocksRounded))],
            failure = None\<rparr>
         \<and> sint blocksRounded = 43200
         \<and> uint (predicted_height 1000 blocksRounded) = 44200)"
proof -
  have h1: "(1735689600000000000 :: time) \<le> 1735776000000000000" by simp
  have h2: "(0 :: float64) < 2" by simp
  have h3: "43200 = round64 (Seconds (Sub 1735776000000000000 1735689600000000000) / 2)"
    unfolding day_ahead ..
  have ts: "new_year_2025 1000 = Inr 1735689600" by (simp add: new_year_2025_def)
  note t = future_height_prediction [OF h1 h2 h3, of 1000 new_year_2025 1000 1735689600,
      unfolded day_ahead]
  have fl: "\<lfloor>43200 :: rat\<rfloor> = 43200" "\<lfloor>43200 + 1 / 2 :: rat\<rfloor> = 43200"
    by (simp_all add: floor_unique)
  have "(43200 :: rat) < 2 ^ 63" by simp
  then obtain b where b:
    "hf_predict 1735776000000000000 2 1000 1735689600000000000
       = [FuturePrediction 1735776000000000000 2 86400000000000 (Some b) (Some (1000 + b))]"
    "sint b = 43200"
    using t fl(1) by auto
  have "b = word_of_int (sint b)" by simp
  then have "b = 43200" unfolding b(2) by simp
  then have floor_run: "hf_predict 1735776000000000000 2 1000 1735689600000000000
     = [FuturePrediction 1735776000000000000 2 86400000000000 (Some 43200) (Some 44200)]"
    using b(1) by simp
  have "(43200 :: rat) + 1 / 2 < 2 ^ 63" by simp
  then obtain r where r:
    "bor_hf_main (Inr 1000) new_year_2025 (Inr 1735776000000000000) 2 =
           \<lparr>printed =
              [CurrentBlockLine 1000 1735689600000000000,
               TargetTimeLine 1735776000000000000,
               AvgBlockLine 2,
               DeltaTimeLine ''+'' 86400000000000 86400,
               EstimatedBlocksLine ''+'' (Some r) (Some 43200),
               PredictedHeightLine (Some (predicted_height 1000 r))],
            failure = None\<rparr>"
    "sint r = \<lfloor>43200 + 1 / 2 :: rat\<rfloor>"
    "uint (1000 :: uint64) + \<lfloor>43200 + 1 / 2 :: rat\<rfloor> < 2 ^ 63 \<longrightarrow>
       uint (predicted_height 1000 r) = uint (1000 :: uint64) + \<lfloor>43200 + 1 / 2 :: rat\<rfloor>"
    using t ts Unix_new_year by blast
  have "sint r = 43200" "uint (predicted_height 1000 r) = 44200"
    using r(2,3) unfolding fl(2) by simp_all
  with r(1) floor_run show ?thesis by blast
qed

text \<open>
  Claim C6, as the code has it. When the target time is earlier than the latest block
  time, the Heimdall predictor prints the current block and the message that the target
  is in the past, prints no prediction and ends without error. The Bor predictor has no
  such check: for every latest block and every finite average block time it ends without
  error and prints the time delta and the block delta with the sign \<open>-\<close> and, as its
  last line, a predicted height, the clamp of \<open>n + blocksRounded\<close>. (Where the \<open>float64\<close>
  quotient or its conversion to \<open>int64\<close> is outside the fragment, as for an average block
  time of 0, the lines are printed all the same, with the numbers \<open>None\<close>.)
\<close>

theorem target_in_the_past:
  "(targetTime < latestTime \<longrightarrow>
      hf_predict targetTime avgBlockTime latestHeight latestTime = [TargetInPast targetTime])
   \<and> (targetTime_hardcoded < latestTime \<longrightarrow>
      heimdall_hf_main (Inr (latestHeight, latestTime, earliest))
        = \<lparr>printed = [CurrentBlock latestHeight latestTime, TargetInPast targetTime_hardcoded],
           failure = None\<rparr>)
   \<and> (targetTime < Unix curTS \<and> blockTimestamp n = Inr curTS \<longrightarrow>
      bor_hf_main (Inr n) blockTimestamp (Inr targetTime) avg =
        \<lparr>printed =
           [CurrentBlockLine n (Unix curTS),
            TargetTimeLine targetTime,
            AvgBlockLine avg,
            DeltaTimeLine ''-'' (Sub targetTime (Unix curTS))
              (Seconds (Sub targetTime (Unix curTS))),
            EstimatedBlocksLine ''-''
              (map_option absInt64
                 (float64_to_int64
                    (math_Round (fdiv (Some (Seconds (Sub targetTime (Unix curTS)))) avg))))
              (fdiv (Some (Seconds (Sub targetTime (Unix curTS)))) avg),
            PredictedHeightLine
              (map_option (predicted_height n)
                 (float64_to_int64
                    (math_Round (fdiv (Some (Seconds (Sub targetTime (Unix curTS)))) avg))))],
         failure = None\<rparr>)"
proof (intro conjI impI)
  assume "targetTime < latestTime"
  then show "hf_predict targetTime avgBlockTime latestHeight latestTime = [TargetInPast targetTime]"
    by (rule hf_predict_past)
next
  assume "targetTime_hardcoded < latestTime"
  then have "hf_predict targetTime_hardcoded avgBlockTime_hardcoded latestHeight latestTime
               = [TargetInPast targetTime_hardcoded]"
    by (rule hf_predict_past)
  then show "heimdall_hf_main (Inr (latestHeight, latestTime, earliest))
        = \<lparr>printed = [CurrentBlock latestHeight latestTime, TargetInPast targetTime_hardcoded],
           failure = None\<rparr>"
    by (simp add: heimdall_hf_main_def)
next
  assume a: "targetTime < Unix curTS \<and> blockTimestamp n = Inr curTS"
  then have d: "sint (Sub targetTime (Unix curTS)) < 0"
    by (simp add: Sub_negative_iff)
  from a have ts: "blockTimestamp n = Inr curTS" by simp
  show "bor_hf_main (Inr n) blockTimestamp (Inr targetTime) avg =
        \<lparr>printed =
           [CurrentBlockLine n (Unix curTS),
            TargetTimeLine targetTime,
            AvgBlockLine avg,
            DeltaTimeLine ''-'' (Sub targetTime (Unix curTS))
              (Seconds (Sub targetTime (Unix curTS))),
            EstimatedBlocksLine ''-''
              (map_option absInt64
                 (float64_to_int64
                    (math_Round (fdiv (Some (Seconds (Sub targetTime (Unix curTS)))) avg))))
              (fdiv (Some (Seconds (Sub targetTime (Unix curTS)))) avg),
            PredictedHeightLine
              (map_option (predicted_height n)
                 (float64_to_int64
                    (math_Round (fdiv (Some (Seconds (Sub targetTime (Unix curTS)))) avg))))],
         failure = None\<rparr>"
    using bor_hf_main_run [where blockTimestamp = blockTimestamp and n = n
        and curTS = curTS and target = targetTime and avg = avg, OF ts] d
    by simp
qed

text \<open>Runs with a target in the past: the Heimdall predictor one nanosecond after its
  hard-coded target, and both predictors one day after the target, at two seconds a
  block and at an average block time of 0.\<close>

theorem target_in_the_past_witness:
  "heimdall_hf_main (Inr (1000, 1758031200000000001, 1))
     = \<lparr>printed = [CurrentBlock 1000 1758031200000000001, TargetInPast targetTime_hardcoded],
        failure = None\<rparr>
   \<and> hf_predict 1735603200000000000 2 1000 1735689600000000000
       = [TargetInPast 1735603200000000000]
   \<and> bor_hf_main (Inr 1000) new_year_2025 (Inr 1735603200000000000) 2 =
       \<lparr>printed =
          [CurrentBlockLine 1000 1735689600000000000,
           TargetTimeLine 1735603200000000000,
           AvgBlockLine 2,
           DeltaTimeLine ''-'' (- 86400000000000) (- 86400),
           EstimatedBlocksLine ''-'' (Some 43200) (Some (- 43200)),
           PredictedHeightLine (Some 0)],
        failure = None\<rparr>
   \<and> bor_hf_main (Inr 1000) new_year_2025 (Inr 1735603200000000000) 0 =
       \<lparr>printed =
          [CurrentBlockLine 1000 1735689600000000000,
           TargetTimeLine 1735603200000000000,
           AvgBlockLine 0,
           DeltaTimeLine ''-'' (- 86400000000000) (- 86400),
           EstimatedBlocksLine ''-'' None None,
           PredictedHeightLine None],
        failure = None\<rparr>"
proof -
  have h1: "targetTime_hardcoded < 1758031200000000001"
    by (simp add: targetTime_hardcoded_def)
  have h2: "(1735603200000000000 :: time) < 1735689600000000000" by simp
  have h3: "1735603200000000000 < Unix 1735689600 \<and> new_year_2025 1000 = Inr 1735689600"
    by (simp add: Unix_new_year new_year_2025_def)
  have a: "heimdall_hf_main (Inr (1000, 1758031200000000001, 1))
     = \<lparr>printed = [CurrentBlock 1000 1758031200000000001, TargetInPast targetTime_hardcoded],
        failure = None\<rparr>"
    using target_in_the_past [where latestTime = 1758031200000000001 and latestHeight = 1000
        and earliest = 1] h1
    by blast
  have b: "hf_predict 1735603200000000000 2 1000 1735689600000000000
       = [TargetInPast 1735603200000000000]"
    using target_in_the_past [where targetTime = 1735603200000000000
        and latestTime = 1735689600000000000 and avgBlockTime = 2 and latestHeight = 1000] h2
    by blast
  have "\<lceil>- 43200 - 1 / 2 :: rat\<rceil> = - 43200" by (simp add: ceiling_unique)
  then have "math_Round (Some (- 43200)) = Some (of_int (- 43200))"
    by (simp add: math_Round_def del: ceiling_diff_numeral)
  moreover have "float64_to_int64 (Some (of_int (- 43200))) = Some (word_of_int (- 43200))"
    by (rule float64_to_int64_of_int) simp_all
  ultimately have r: "float64_to_int64 (math_Round (Some (- 43200))) = Some (- 43200)"
    by simp
  have v: "absInt64 (- 43200) = 43200" "predicted_height 1000 (- 43200) = 0"
    by (simp_all add: absInt64_def predicted_height_def)
  have z: "fdiv (Some (- 86400)) 0 = None" "math_Round None = None" "float64_to_int64 None = None"
    by (simp_all add: fdiv_def math_Round_def float64_to_int64_def)
  have c: "bor_hf_main (Inr 1000) new_year_2025 (Inr 1735603200000000000) 2 =
       \<lparr>printed =
          [CurrentBlockLine 1000 1735689600000000000,
           TargetTimeLine 1735603200000000000,
           AvgBlockLine 2,
           DeltaTimeLine ''-'' (- 86400000000000) (- 86400),
           EstimatedBlocksLine ''-'' (Some 43200) (Some (- 43200)),
           PredictedHeightLine (Some 0)],
        failure = None\<rparr>"
    using target_in_the_past [where targetTime = 1735603200000000000 and curTS = 1735689600
        and blockTimestamp = new_year_2025 and n = 1000 and avg = 2,
        THEN conjunct2, THEN conjunct2, rule_format, OF h3]
    unfolding Unix_new_year day_behind r by (simp add: v)
  have d: "bor_hf_main (Inr 1000) new_year_2025 (Inr 1735603200000000000) 0 =
       \<lparr>printed =
          [CurrentBlockLine 1000 1735689600000000000,
           TargetTimeLine 1735603200000000000,
           AvgBlockLine 0,
           DeltaTimeLine ''-'' (- 86400000000000) (- 86400),
           EstimatedBlocksLine ''-'' None None,
           PredictedHeightLine None],
        failure = None\<rparr>"
    using target_in_the_past [where targetTime = 1735603200000000000 and curTS = 1735689600
        and blockTimestamp = new_year_2025 and n = 1000 and avg = 0,
        THEN conjunct2, THEN conjunct2, rule_format, OF h3]
    unfolding Unix_new_year day_behind(1,2) z by simp
  from a b c d show ?thesis by blast
qed

text \<open>
  Claim C6 as stated says that no predicted height is emitted when the target is in the
  past. The Bor predictor, one day after the target at two seconds a block, prints the
  predicted height 0.
\<close>

theorem bor_predicts_for_past_target:
  "bor_hf_main (Inr 1000) new_year_2025 (Inr 1735603200000000000) 2 =
     \<lparr>printed =
        [CurrentBlockLine 1000 1735689600000000000,
         TargetTimeLine 1735603200000000000,
         AvgBlockLine 2,
         DeltaTimeLine ''-'' (- 86400000000000) (- 86400),
         EstimatedBlocksLine ''-'' (Some 43200) (Some (- 43200)),
         PredictedHeightLine (Some 0)],
      failure = None\<rparr>"
  by (rule bor_hf_past_example)

section \<open>Properties of the future-time estimator\<close>

subsection \<open>The floats of the estimator are finite\<close>

lemma ulp_le:
  assumes "q \<noteq> 0"
  shows "ulp q \<le> \<bar>q\<bar> + 1"
proof -
  have p: "0 < \<bar>q\<bar>" using assms by simp
  have e: "pow2 (ilog2 \<bar>q\<bar>) \<le> \<bar>q\<bar>" using p by (rule ilog2_bounds)
  show ?thesis
  proof (cases "- 1022 \<le> ilog2 \<bar>q\<bar>")
    case True
    then have "ulp q = pow2 (ilog2 \<bar>q\<bar> - 52)" by (simp add: ulp_def max_def)
    also have "\<dots> \<le> pow2 (ilog2 \<bar>q\<bar>)" by (rule pow2_mono) simp
    finally show ?thesis using e by linarith
  next
    case False
    then have "ulp q = pow2 (- 1074)" by (simp add: ulp_def max_def)
    also have "\<dots> \<le> pow2 0" by (rule pow2_mono) simp
    also have "\<dots> = 1" by (simp add: pow2_def)
    finally show ?thesis using p by linarith
  qed
qed

lemma round64_abs_le: "\<bar>round64 q\<bar> \<le> 2 * \<bar>q\<bar> + 1"
proof (cases "q = 0")
  case True
  then show ?thesis by (simp add: round64_def)
next
  case False
  define U where "U = ulp q"
  define k where "k = round_to_even (q / U)"
  have U: "0 < U" unfolding U_def by (rule ulp_pos)
  have c: "\<bar>of_int k - q / U\<bar> \<le> 1 / 2" unfolding k_def by (rule round_to_even_close)
  have "of_int k * U - q = (of_int k - q / U) * U" using U by (simp add: field_simps)
  then have "\<bar>of_int k * U - q\<bar> = \<bar>of_int k - q / U\<bar> * U"
    using U by (simp add: abs_mult)
  also have "\<dots> \<le> 1 / 2 * U" using c U by (intro mult_right_mono) simp_all
  finally have d: "\<bar>of_int k * U - q\<bar> \<le> U / 2" by simp
  have "U \<le> \<bar>q\<bar> + 1" unfolding U_def using False by (rule ulp_le)
  with d have "\<bar>of_int k * U\<bar> \<le> 2 * \<bar>q\<bar> + 1" by linarith
  moreover have "round64 q = of_int k * U" using False by (simp add: round64_def k_def U_def)
  ultimately show ?thesis by simp
qed

lemma round64_bounded:
  assumes "\<bar>q\<bar> \<le> b"
  shows "\<bar>round64 q\<bar> \<le> 2 * b + 1"
  using round64_abs_le [of q] assms by linarith

lemma quo_abs_le:
  assumes "0 < b"
  shows "\<bar>quo a b\<bar> \<le> \<bar>a\<bar>"
proof -
  have d: "0 \<le> \<bar>a\<bar> div b" using assms by (simp add: pos_imp_zdiv_nonneg_iff)
  have "\<bar>a\<bar> div b \<le> \<bar>a\<bar>"
  proof (cases "a = 0")
    case True
    then show ?thesis by simp
  next
    case False
    then have "0 < \<bar>a\<bar>" by simp
    then show ?thesis by (rule int_div_le_self)
  qed
  moreover have "\<bar>quo a b\<bar> = \<bar>sgn a\<bar> * (\<bar>a\<bar> div b)"
    using assms d by (simp add: quo_def abs_mult)
  moreover have "\<bar>sgn a\<bar> * (\<bar>a\<bar> div b) \<le> \<bar>a\<bar> div b"
    using d by (cases "a = 0") simp_all
  ultimately show ?thesis by linarith
qed

lemma rem_abs_le:
  assumes "0 < b"
  shows "\<bar>rem a b\<bar> \<le> \<bar>a\<bar> + b * \<bar>a\<bar>"
proof -
  have "\<bar>rem a b\<bar> \<le> \<bar>a\<bar> + \<bar>b * quo a b\<bar>" unfolding rem_def by (rule abs_triangle_ineq4)
  also have "\<bar>b * quo a b\<bar> = b * \<bar>quo a b\<bar>" using assms by (simp add: abs_mult)
  also have "b * \<bar>quo a b\<bar> \<le> b * \<bar>a\<bar>"
    using assms quo_abs_le [OF assms, of a] by (intro mult_left_mono) simp_all
  finally show ?thesis by simp
qed

lemma Seconds_bounded: "\<bar>Seconds d\<bar> \<le> 2 ^ 101"
proof -
  define sec where "sec = quo (sint d) (sint Second)"
  define nsec where "nsec = rem (sint d) (sint Second)"
  have a: "\<bar>sint d\<bar> \<le> 2 ^ 63" using sint64_range [of d] by simp
  have "\<bar>sec\<bar> \<le> \<bar>sint d\<bar>" unfolding sec_def sint_Second by (rule quo_abs_le) simp
  with a have "\<bar>sec\<bar> \<le> 2 ^ 63" by linarith
  then have "\<bar>of_int sec :: rat\<bar> \<le> of_int (2 ^ 63)"
    unfolding of_int_abs [symmetric] by (simp only: of_int_le_iff)
  then have s: "\<bar>of_int sec :: rat\<bar> \<le> 2 ^ 63" by simp
  have "\<bar>nsec\<bar> \<le> \<bar>sint d\<bar> + 1000000000 * \<bar>sint d\<bar>"
    unfolding nsec_def sint_Second by (rule rem_abs_le) simp
  with a have "\<bar>nsec\<bar> \<le> 2 ^ 94" by simp
  then have "\<bar>of_int nsec :: rat\<bar> \<le> of_int (2 ^ 94)"
    unfolding of_int_abs [symmetric] by (simp only: of_int_le_iff)
  then have n: "\<bar>of_int nsec :: rat\<bar> \<le> 2 ^ 94" by simp
  have A: "\<bar>round64 (of_int sec)\<bar> \<le> 2 ^ 65"
    using round64_bounded [OF s] by simp
  have B0: "\<bar>round64 (of_int nsec)\<bar> \<le> 2 ^ 96"
    using round64_bounded [OF n] by simp
  have "\<bar>round64 (of_int nsec) / 1000000000\<bar> \<le> \<bar>round64 (of_int nsec)\<bar>"
    by (simp add: abs_divide field_simps)
  with B0 have "\<bar>round64 (of_int nsec) / 1000000000\<bar> \<le> 2 ^ 96" by linarith
  then have B: "\<bar>round64 (round64 (of_int nsec) / 1000000000)\<bar> \<le> 2 ^ 98"
    using round64_bounded by fastforce
  have "\<bar>round64 (of_int sec) + round64 (round64 (of_int nsec) / 1000000000)\<bar> \<le> 2 ^ 99"
    using A B by simp
  then have "\<bar>round64 (round64 (of_int sec) + round64 (round64 (of_int nsec) / 1000000000))\<bar>
               \<le> 2 ^ 101"
    using round64_bounded by fastforce
  then show ?thesis by (simp add: Seconds_def Let_def sec_def nsec_def)
qed

lemma int64_to_float64_bounded: "\<bar>int64_to_float64 k\<bar> \<le> 2 ^ 65"
proof -
  have "\<bar>sint k\<bar> \<le> 2 ^ 63" using sint64_range [of k] by simp
  then have "\<bar>of_int (sint k) :: rat\<bar> \<le> of_int (2 ^ 63)"
    unfolding of_int_abs [symmetric] by (simp only: of_int_le_iff)
  then have "\<bar>of_int (sint k) :: rat\<bar> \<le> 2 ^ 63" by simp
  then show ?thesis unfolding int64_to_float64_def using round64_bounded by fastforce
qed

lemma fl64_bounded:
  assumes "\<bar>q\<bar> \<le> 2 ^ 170"
  shows "fl64 q = Some (round64 q)"
proof -
  have "pow2 172 \<le> pow2 1024" by (rule pow2_mono) simp
  then have p: "2 ^ 172 \<le> pow2 1024" by (simp add: pow2_def)
  have "\<bar>round64 q\<bar> \<le> 2 * 2 ^ 170 + 1" using assms by (rule round64_bounded)
  then have "\<bar>round64 q\<bar> < 2 ^ 172" by simp
  with p have "\<bar>round64 q\<bar> < pow2 1024" by linarith
  then show ?thesis by (simp add: fl64_def)
qed

lemma estimate_avg:
  "fdiv (Some (Seconds (Sub t1 t2))) 2000 = Some (round64 (Seconds (Sub t1 t2) / 2000))"
  "\<bar>round64 (Seconds (Sub t1 t2) / 2000)\<bar> \<le> 2 ^ 103"
proof -
  have "\<bar>Seconds (Sub t1 t2) / 2000\<bar> \<le> \<bar>Seconds (Sub t1 t2)\<bar>"
    by (simp add: abs_divide field_simps)
  then have b: "\<bar>Seconds (Sub t1 t2) / 2000\<bar> \<le> 2 ^ 101"
    using Seconds_bounded [of "Sub t1 t2"] by linarith
  then have "\<bar>Seconds (Sub t1 t2) / 2000\<bar> \<le> 2 ^ 170" by simp
  then have "fl64 (Seconds (Sub t1 t2) / 2000) = Some (round64 (Seconds (Sub t1 t2) / 2000))"
    by (rule fl64_bounded)
  then show "fdiv (Some (Seconds (Sub t1 t2))) 2000 = Some (round64 (Seconds (Sub t1 t2) / 2000))"
    by (simp add: fdiv_def)
  show "\<bar>round64 (Seconds (Sub t1 t2) / 2000)\<bar> \<le> 2 ^ 103"
    using round64_bounded [OF b] by simp
qed

lemma estimate_left:
  assumes "\<bar>avg\<bar> \<le> 2 ^ 103"
  shows "fmul (Some avg) (int64_to_float64 k) = Some (round64 (avg * int64_to_float64 k))"
proof -
  have "\<bar>avg * int64_to_float64 k\<bar> = \<bar>avg\<bar> * \<bar>int64_to_float64 k\<bar>" by (rule abs_mult)
  also have "\<dots> \<le> 2 ^ 103 * 2 ^ 65"
    using assms int64_to_float64_bounded [of k] by (intro mult_mono) simp_all
  finally have "\<bar>avg * int64_to_float64 k\<bar> \<le> 2 ^ 170" by simp
  then have "fl64 (avg * int64_to_float64 k) = Some (round64 (avg * int64_to_float64 k))"
    by (rule fl64_bounded)
  then show ?thesis by (simp add: fmul_def)
qed

subsection \<open>The estimated time\<close>

lemma sint_mul_Second:
  fixes w :: int64
  assumes "\<bar>sint w\<bar> * 1000000000 < 2 ^ 63"
  shows "sint (w * Second) = sint w * 1000000000"
proof -
  have "w * Second = word_of_int (sint w * sint Second)" by simp
  then have "sint (w * Second) = sint (word_of_int (sint w * 1000000000) :: 64 word)"
    by (simp only: sint_Second)
  also have "\<dots> = sint w * 1000000000"
    using assms by (intro sint_of_int_id) (simp_all add: abs_if split: if_splits)
  finally show ?thesis .
qed

lemma estimate_value:
  assumes "avg = round64 (Seconds (Sub t1 t2) / 2000)"
    and "left = round64 (avg * int64_to_float64 (targetBlock - h1))"
  shows "estimate h1 t1 t2 =
           (Some avg, Some left,
            if - (2 ^ 63) \<le> toward_zero left \<and> toward_zero left < 2 ^ 63
            then Some (t1 + sint (word_of_int (toward_zero left) * Second :: int64))
            else None)"
proof -
  have a: "fdiv (Some (Seconds (Sub t1 t2))) 2000 = Some avg" and b: "\<bar>avg\<bar> \<le> 2 ^ 103"
    unfolding assms(1) by (rule estimate_avg)+
  have l: "fmul (Some avg) (int64_to_float64 (targetBlock - h1)) = Some left"
    unfolding assms(2) using b by (rule estimate_left)
  show ?thesis
    unfolding estimate_def Let_def a l by (simp add: float64_to_int64_def Add_def)
qed

lemma estimate_in_range:
  assumes "avg = round64 (Seconds (Sub t1 t2) / 2000)"
    and "left = round64 (avg * int64_to_float64 (targetBlock - h1))"
    and "\<bar>toward_zero left\<bar> * 1000000000 < 2 ^ 63"
  shows "estimate h1 t1 t2 = (Some avg, Some left, Some (t1 + toward_zero left * 1000000000))"
proof -
  have r: "- (2 ^ 63) \<le> toward_zero left" "toward_zero left < 2 ^ 63"
    using assms(3) by simp_all
  then have s: "sint (word_of_int (toward_zero left) :: int64) = toward_zero left"
    by (rule sint_of_int_id)
  have "sint (word_of_int (toward_zero left) * Second :: int64) = toward_zero left * 1000000000"
    using sint_mul_Second [of "word_of_int (toward_zero left)"] assms(3) unfolding s by simp
  then show ?thesis
    using estimate_value [OF assms(1,2)] r by simp
qed

subsection \<open>Two runs\<close>

lemma estimate_example_facts:
  "3 / 2 = round64 (Seconds (Sub 1735689600000000000 1735686600000000000) / 2000)"
  "3 / 2 = round64 (3 / 2 * int64_to_float64 (targetBlock - 8788499))"
  "toward_zero (3 / 2) = 1"
proof -
  have s: "Sub 1735689600000000000 1735686600000000000 = 3000000000000"
    by (simp add: Sub_def)
  have "sint (3000000000000 :: duration) = 3000 * 1000000000" by simp
  then have "Seconds 3000000000000 = of_int 3000" by (rule Seconds_whole)
  then have sec: "Seconds 3000000000000 = 3000" by simp
  have "round64 (of_int 3 * pow2 (- 1)) = of_int 3 * pow2 (- 1)"
    by (rule round64_exact) simp_all
  then have half: "round64 (3 / 2) = 3 / 2" by (simp add: pow2_def)
  have "(3000 :: rat) / 2000 = 3 / 2" by simp
  then show "3 / 2 = round64 (Seconds (Sub 1735689600000000000 1735686600000000000) / 2000)"
    unfolding s sec using half by simp
  have one: "int64_to_float64 (targetBlock - 8788499) = 1"
  proof -
    have e: "targetBlock - 8788499 = (1 :: int64)" by (simp add: targetBlock_def)
    have "int64_to_float64 (targetBlock - 8788499) = round64 (of_int 1)"
      unfolding e int64_to_float64_def by simp
    also have "\<dots> = of_int 1" by (rule round64_int) simp
    finally show ?thesis by simp
  qed
  show "3 / 2 = round64 (3 / 2 * int64_to_float64 (targetBlock - 8788499))"
    unfolding one using half by simp
  show "toward_zero (3 / 2) = 1" by (simp add: toward_zero_def floor_unique)
qed

lemma estimate_example:
  "estimate 8788499 1735689600000000000 1735686600000000000
     = (Some (3 / 2), Some (3 / 2), Some 1735689601000000000)"
proof -
  have "estimate 8788499 1735689600000000000 1735686600000000000
     = (Some (3 / 2), Some (3 / 2), Some (1735689600000000000 + toward_zero (3 / 2) * 1000000000))"
    using estimate_example_facts(1,2)
    by (rule estimate_in_range) (simp add: estimate_example_facts(3))
  then show ?thesis unfolding estimate_example_facts(3) by simp
qed

text \<open>At height 0 with 2100000 seconds for the last 2000 blocks, the seconds left are
  9227925000, which is more nanoseconds than an \<open>int64\<close> holds.\<close>

lemma estimate_wraps_facts:
  "1050 = round64 (Seconds (Sub 1735689600000000000 1733589600000000000) / 2000)"
  "9227925000 = round64 (1050 * int64_to_float64 (targetBlock - 0))"
  "toward_zero 9227925000 = 9227925000"
proof -
  have s: "Sub 1735689600000000000 1733589600000000000 = 2100000000000000"
    by (simp add: Sub_def)
  have "sint (2100000000000000 :: duration) = 2100000 * 1000000000" by simp
  then have "Seconds 2100000000000000 = of_int 2100000" by (rule Seconds_whole)
  then have sec: "Seconds 2100000000000000 = 2100000" by simp
  have "round64 (of_int 1050) = of_int 1050" by (rule round64_int) simp
  then have r: "round64 1050 = 1050" by simp
  have "(2100000 :: rat) / 2000 = 1050" by simp
  then show "1050 = round64 (Seconds (Sub 1735689600000000000 1733589600000000000) / 2000)"
    unfolding s sec using r by simp
  have b: "int64_to_float64 (targetBlock - 0) = 8788500"
  proof -
    have e: "targetBlock - 0 = (8788500 :: int64)" by (simp add: targetBlock_def)
    have "int64_to_float64 (targetBlock - 0) = round64 (of_int 8788500)"
      unfolding e int64_to_float64_def by simp
    also have "\<dots> = of_int 8788500" by (rule round64_int) simp
    finally show ?thesis by simp
  qed
  have "round64 (of_int 9227925000) = of_int 9227925000" by (rule round64_int) simp
  then have "round64 9227925000 = 9227925000" by simp
  then show "9227925000 = round64 (1050 * int64_to_float64 (targetBlock - 0))"
    unfolding b by simp
  have "toward_zero (of_int 9227925000) = 9227925000" by (rule toward_zero_of_int)
  then show "toward_zero 9227925000 = 9227925000" by simp
qed

lemma estimate_wraps:
  "estimate 0 1735689600000000000 1733589600000000000
     = (Some 1050, Some 9227925000, Some (- 7483129473709551616))"
proof -
  have w: "sint (9227925000 * Second :: int64) = - 9218819073709551616"
    by (simp add: Second_def)
  show ?thesis
    using estimate_value [OF estimate_wraps_facts(1,2)]
    unfolding estimate_wraps_facts(3) by (simp add: w)
qed

text \<open>
  Claim C9 as stated says that the estimated time is \<open>T + secondsLeft\<close> with no other
  adjustment. One block below the target, with 3000 seconds for the last 2000 blocks,
  \<open>secondsLeft\<close> is 1.5 and the estimated time is \<open>T\<close> plus one second, not \<open>T\<close> plus 1.5
  seconds. At height 0, with 2100000 seconds for the last 2000 blocks, \<open>secondsLeft\<close> is
  9227925000 and the estimated time is 7483129473709551616 nanoseconds before the
  epoch, in the year 1732, not \<open>T\<close> plus 9227925000 seconds.
\<close>

theorem estimate_discards_fraction:
  "estimate 8788499 1735689600000000000 1735686600000000000
     = (Some (3 / 2), Some (3 / 2), Some 1735689601000000000)
   \<and> (1735689601000000000 :: time) \<noteq> 1735689600000000000 + 1500000000
   \<and> estimate 0 1735689600000000000 1733589600000000000
     = (Some 1050, Some 9227925000, Some (- 7483129473709551616))
   \<and> (- 7483129473709551616 :: time) \<noteq> 1735689600000000000 + 9227925000 * 1000000000"
  using estimate_example estimate_wraps by simp

text \<open>
  Claim C9, as the code has it. The average block time \<open>avg\<close> is the \<open>float64\<close> quotient
  of the seconds of \<open>T - T'\<close> (a \<open>Duration\<close>) by 2000 and \<open>secondsLeft\<close> the \<open>float64\<close>
  product of \<open>avg\<close> and \<open>targetBlock - H\<close>; both are always finite. The estimated time is
  \<open>T\<close> plus the \<open>Duration\<close> \<open>w * Second\<close>, an \<open>int64\<close> product, where \<open>w\<close> is \<open>secondsLeft\<close>
  truncated towards zero, if that is an \<open>int64\<close> (otherwise Go leaves the conversion to
  the implementation). So as long as \<open>w\<close> seconds are fewer than \<open>2^63\<close> nanoseconds the
  estimated time is \<open>T\<close> plus \<open>secondsLeft\<close> truncated to whole seconds; beyond that the
  product wraps around. This is what the program prints.
\<close>

theorem future_time_estimation:
  assumes "avg = round64 (Seconds (Sub t1 t2) / 2000)"
    and "left = round64 (avg * int64_to_float64 (targetBlock - h1))"
  shows "estimate h1 t1 t2 =
           (Some avg, Some left,
            if - (2 ^ 63) \<le> toward_zero left \<and> toward_zero left < 2 ^ 63
            then Some (t1 + sint (word_of_int (toward_zero left) * Second :: int64))
            else None)
       \<and> (\<bar>toward_zero left\<bar> * 1000000000 < 2 ^ 63 \<longrightarrow>
            estimate h1 t1 t2 = (Some avg, Some left, Some (t1 + toward_zero left * 1000000000)))
       \<and> (fetchBlockTime h1 = Inr t1 \<and> fetchBlockTime (h1 - 2000) = Inr t2 \<longrightarrow>
            estimator_main (Inr h1) fetchBlockTime =
              \<lparr>printed =
                 [CurrentHeight h1, CurrentBlockTime t1, BlockTimeAgo t2,
                  AverageBlockTime (Some avg),
                  EstimatedMiningTime
                    (if - (2 ^ 63) \<le> toward_zero left \<and> toward_zero left < 2 ^ 63
                     then Some (t1 + sint (word_of_int (toward_zero left) * Second :: int64))
                     else None)],
               failure = None\<rparr>)"
proof (intro conjI impI)
  show e: "estimate h1 t1 t2 =
           (Some avg, Some left,
            if - (2 ^ 63) \<le> toward_zero left \<and> toward_zero left < 2 ^ 63
            then Some (t1 + sint (word_of_int (toward_zero left) * Second :: int64))
            else None)"
    using assms by (rule estimate_value)
  assume "fetchBlockTime h1 = Inr t1 \<and> fetchBlockTime (h1 - 2000) = Inr t2"
  then show "estimator_main (Inr h1) fetchBlockTime =
              \<lparr>printed =
                 [CurrentHeight h1, CurrentBlockTime t1, BlockTimeAgo t2,
                  AverageBlockTime (Some avg),
                  EstimatedMiningTime
                    (if - (2 ^ 63) \<le> toward_zero left \<and> toward_zero left < 2 ^ 63
                     then Some (t1 + sint (word_of_int (toward_zero left) * Second :: int64))
                     else None)],
               failure = None\<rparr>"
    by (simp add: estimator_main_def e)
next
  assume "\<bar>toward_zero left\<bar> * 1000000000 < 2 ^ 63"
  with assms show "estimate h1 t1 t2
      = (Some avg, Some left, Some (t1 + toward_zero left * 1000000000))"
    by (rule estimate_in_range)
qed

text \<open>One block below the target, with 3000 seconds for the last 2000 blocks: the
  estimated time is one second after the latest block time.\<close>

theorem future_time_estimation_witness:
  "estimate 8788499 1735689600000000000 1735686600000000000
     = (Some (3 / 2), Some (3 / 2), Some 1735689601000000000)
   \<and> estimator_main (Inr 8788499) block_times =
       \<lparr>printed =
          [CurrentHeight 8788499, CurrentBlockTime 1735689600000000000,
           BlockTimeAgo 1735686600000000000, AverageBlockTime (Some (3 / 2)),
           EstimatedMiningTime (Some 1735689601000000000)],
        failure = None\<rparr>"
proof -
  have r: "\<bar>toward_zero (3 / 2)\<bar> * 1000000000 < 2 ^ 63"
    by (simp add: estimate_example_facts(3))
  have b: "block_times 8788499 = Inr 1735689600000000000
      \<and> block_times (8788499 - 2000) = Inr 1735686600000000000"
    by (simp add: block_times_def)
  have v: "(1735689600000000000 :: time) + toward_zero (3 / 2) * 1000000000 = 1735689601000000000"
    by (simp add: estimate_example_facts(3))
  have w: "sint (word_of_int (toward_zero (3 / 2)) * Second :: int64) = 1000000000"
    by (simp add: estimate_example_facts(3) Second_def)
  note t = future_time_estimation [OF estimate_example_facts(1,2), of block_times]
  have e: "estimate 8788499 1735689600000000000 1735686600000000000
     = (Some (3 / 2), Some (3 / 2), Some 1735689601000000000)"
    using t r unfolding v by blast
  have "estimator_main (Inr 8788499) block_times =
       \<lparr>printed =
          [CurrentHeight 8788499, CurrentBlockTime 1735689600000000000,
           BlockTimeAgo 1735686600000000000, AverageBlockTime (Some (3 / 2)),
           EstimatedMiningTime
             (if - (2 ^ 63) \<le> toward_zero (3 / 2) \<and> toward_zero (3 / 2) < 2 ^ 63
              then Some (1735689600000000000
                         + sint (word_of_int (toward_zero (3 / 2)) * Second :: int64))
              else None)],
        failure = None\<rparr>"
    using t b by blast
  then have "estimator_main (Inr 8788499) block_times =
       \<lparr>printed =
          [CurrentHeight 8788499, CurrentBlockTime 1735689600000000000,
           BlockTimeAgo 1735686600000000000, AverageBlockTime (Some (3 / 2)),
           EstimatedMiningTime (Some 1735689601000000000)],
        failure = None\<rparr>"
    unfolding w by (simp add: estimate_example_facts(3))
  with e show ?thesis by simp
qed

section \<open>Properties of the average-block-time programs\<close>

subsection \<open>The Heimdall loop\<close>




subsection \<open>The Bor loops\<close>



















end
